theory Spec2Isabelle
  imports Main "HOL-Library.Word" "HOL-Library.List_Lexorder"
begin

section \<open>Strings of the platform\<close>

text \<open>
  A JavaScript string is a sequence of 16-bit code units. Source literals that are plain
  ASCII are written with \<open>js\<close>; the Korean message of the validation error is given by
  its code units.
\<close>

type_synonym code_unit = "16 word"
type_synonym js_string = "code_unit list"

definition js :: "string \<Rightarrow> js_string" where
  "js s = map (\<lambda>c. of_nat (of_char c)) s"

text \<open>
  \<open>String.prototype.trim\<close> removes WhiteSpace and LineTerminator code units from both
  ends: TAB, VT, FF, SP, NBSP, ZWNBSP, the Unicode space separators, LF, CR, LS and PS.
\<close>

definition isWhiteSpace :: "code_unit \<Rightarrow> bool" where
  "isWhiteSpace c \<longleftrightarrow>
     c = 0x0009 \<or> c = 0x000A \<or> c = 0x000B \<or> c = 0x000C \<or> c = 0x000D \<or> c = 0x0020 \<or>
     c = 0x00A0 \<or> c = 0x1680 \<or> (0x2000 \<le> c \<and> c \<le> 0x200A) \<or> c = 0x2028 \<or>
     c = 0x2029 \<or> c = 0x202F \<or> c = 0x205F \<or> c = 0x3000 \<or> c = 0xFEFF"

definition trim :: "js_string \<Rightarrow> js_string" where
  "trim s = rev (dropWhile isWhiteSpace (rev (dropWhile isWhiteSpace s)))"

section \<open>Regular expressions of the shape used by the service\<close>

text \<open>
  The one pattern of the service, \<^verbatim>\<open>/^\d{4}[-/]\d{1,2}[-/]\d{1,2}$/\<close>, is a sequence of
  bounded repetitions of character classes, anchored at both ends (no flags, so \<open>^\<close> and
  \<open>$\<close> are the ends of the input and \<open>\d\<close> is an ASCII digit). \<open>rep\<close> lists every
  remainder that a repetition can leave, the longest match first, as backtracking would
  try them.
\<close>

datatype atom = Digit | OneOf "code_unit list"

fun atomOk :: "atom \<Rightarrow> code_unit \<Rightarrow> bool" where
  "atomOk Digit c = (0x30 \<le> c \<and> c \<le> 0x39)"
| "atomOk (OneOf cs) c = (c \<in> set cs)"

fun rep :: "atom \<Rightarrow> nat \<Rightarrow> nat \<Rightarrow> js_string \<Rightarrow> js_string list" where
  "rep a lo hi [] = (if lo = 0 then [[]] else [])"
| "rep a lo hi (c # cs) =
     (if hi \<noteq> 0 \<and> atomOk a c then rep a (lo - 1) (hi - 1) cs else []) @
     (if lo = 0 then [c # cs] else [])"

type_synonym regex = "(atom \<times> nat \<times> nat) list"

fun matches :: "regex \<Rightarrow> js_string \<Rightarrow> bool" where
  "matches [] s = (s = [])"
| "matches ((a, lo, hi) # r) s = list_ex (matches r) (rep a lo hi s)"

definition regex_test :: "regex \<Rightarrow> js_string \<Rightarrow> bool" where
  "regex_test r s = matches r s"

section \<open>The search service: constants\<close>

definition validFields :: "string list" where
  "validFields =
    [''businessName'',
     ''businessNumber'',
     ''businessType'',
     ''businessCeo'',
     ''businessItem'',
     ''corporateRegistrationNumber'',
     ''businessTel'',
     ''businessMobile'',
     ''businessCeoEmail'',
     ''businessFax'',
     ''businessZipcode'',
     ''businessAddress'',
     ''businessAddressDetail'',
     ''createdAt'',
     ''updatedAt'']"

definition datePattern :: regex where
  "datePattern =
    [(Digit, 4, 4), (OneOf [0x2D, 0x2F], 1, 1), (Digit, 1, 2),
     (OneOf [0x2D, 0x2F], 1, 1), (Digit, 1, 2)]"

definition isDateSearch :: "js_string \<Rightarrow> bool" where
  "isDateSearch keyword = regex_test datePattern keyword"


definition dateFormatMessage :: js_string where
  "dateFormatMessage =
    [0xB0A0, 0xC9DC, 0x0020, 0xD615, 0xC2DD, 0xC774, 0x0020, 0xC62C, 0xBC14, 0xB974, 0xC9C0,
     0x0020, 0xC54A, 0xC2B5, 0xB2C8, 0xB2E4, 0x002E, 0x0020] @
    js ''(YYYY-MM-DD '' @ [0xB610, 0xB294] @ js '' YYYY/MM/DD)''"

datatype error =
    BadRequestException js_string
  | RangeError
  | QueryFailedError

definition validateDateRange :: "js_string \<Rightarrow> js_string \<Rightarrow> error + unit" where
  "validateDateRange startDate endDate =
     (if \<not> regex_test datePattern startDate \<or> \<not> regex_test datePattern endDate
      then Inl (BadRequestException dateFormatMessage)
      else Inr ())"

section \<open>Dates of the platform\<close>

text \<open>
  A \<open>Date\<close> object holds a time value: milliseconds since the epoch, or NaN (\<open>None\<close>).
  The service only ever parses strings that match \<open>datePattern\<close>. Of these, the
  date-only ISO form \<open>YYYY-MM-DD\<close> is fixed by ECMAScript: UTC midnight of that day, and NaN
  when the month is outside 01-12 or the day outside 01-31. Every other shape (slashes,
  one-digit fields, a day beyond the end of its month) is left by ECMAScript to the
  implementation, and to the local time zone: it is the parameter \<open>heuristics\<close>.
\<close>

datatype Date = Date "int option"

definition msPerDay :: int where
  "msPerDay = 86400000"

definition InLeapYear :: "int \<Rightarrow> bool" where
  "InLeapYear y \<longleftrightarrow> (y mod 4 = 0 \<and> y mod 100 \<noteq> 0) \<or> y mod 400 = 0"

definition DayFromYear :: "int \<Rightarrow> int" where
  "DayFromYear y =
     365 * (y - 1970) + (y - 1969) div 4 - (y - 1901) div 100 + (y - 1601) div 400"

definition monthLengths :: "int \<Rightarrow> int list" where
  "monthLengths y =
     [31, if InLeapYear y then 29 else 28, 31, 30, 31, 30, 31, 31, 30, 31, 30, 31]"

definition DaysInMonth :: "int \<Rightarrow> int \<Rightarrow> int" where
  "DaysInMonth y m = sum_list (take 1 (drop (nat (m - 1)) (monthLengths y)))"

definition MakeDay :: "int \<Rightarrow> int \<Rightarrow> int \<Rightarrow> int" where
  "MakeDay y m d = DayFromYear y + sum_list (take (nat (m - 1)) (monthLengths y)) + d - 1"

definition toNumber :: "js_string \<Rightarrow> int" where
  "toNumber ds = foldl (\<lambda>n c. 10 * n + (uint c - 48)) 0 ds"

definition isoDatePattern :: regex where
  "isoDatePattern =
    [(Digit, 4, 4), (OneOf [0x2D], 1, 1), (Digit, 2, 2), (OneOf [0x2D], 1, 1), (Digit, 2, 2)]"

definition Date_parse :: "(js_string \<Rightarrow> int option) \<Rightarrow> js_string \<Rightarrow> int option" where
  "Date_parse heuristics s =
     (if regex_test isoDatePattern s then
        (let y = toNumber (take 4 s); m = toNumber (take 2 (drop 5 s)); d = toNumber (drop 8 s)
         in if m < 1 \<or> 12 < m \<or> d < 1 \<or> 31 < d then None
            else if d \<le> DaysInMonth y m then Some (MakeDay y m d * msPerDay)
            else heuristics s)
      else heuristics s)"

definition TimeClip :: "int option \<Rightarrow> int option" where
  "TimeClip t = (case t of None \<Rightarrow> None
     | Some v \<Rightarrow> if 8640000000000000 < \<bar>v\<bar> then None else Some v)"

definition new_Date :: "(js_string \<Rightarrow> int option) \<Rightarrow> js_string \<Rightarrow> Date" where
  "new_Date heuristics s = Date (TimeClip (Date_parse heuristics s))"

text \<open>
  \<open>toISOString\<close> throws a RangeError on an invalid date. On a valid one it spells the instant
  as \<open>YYYY-MM-DDTHH:mm:ss.sssZ\<close>; the spelling determines the instant and the instant the
  spelling, so the string is represented by the instant it denotes.
\<close>

datatype iso_string = ISOString int

fun toISOString :: "Date \<Rightarrow> error + iso_string" where
  "toISOString (Date None) = Inl RangeError"
| "toISOString (Date (Some t)) = Inr (ISOString t)"

section \<open>The entity and the Date Formatter\<close>

text \<open>
  Modelled from the spec: the entity \<open>BusinessInfo\<close> (its declaration,
  \<^verbatim>\<open>entities/business-info.entity\<close>, is not among the sources). The attributes are those
  the specification lists. The type parameter is the type of the two date attributes: a
  time value in a stored record, a display string in a formatted one.
\<close>

record 'd BusinessInfo =
  businessName :: js_string
  businessNumber :: js_string
  businessType :: js_string
  businessCeo :: js_string
  businessItem :: js_string
  corporateRegistrationNumber :: js_string
  businessTel :: js_string
  businessMobile :: js_string
  businessCeoEmail :: js_string
  businessFax :: js_string
  businessZipcode :: js_string
  businessAddress :: js_string
  businessAddressDetail :: js_string
  isDeleted :: bool
  createdAt :: 'd
  updatedAt :: 'd

text \<open>
  Modelled from the spec: the Date Formatter (\<^verbatim>\<open>utils/date-formatter.util\<close> is not among
  the sources). Given a record with raw timestamps it returns an equivalent record with
  \<open>createdAt\<close> and \<open>updatedAt\<close> rendered as display strings; the rendering itself is a
  parameter.
\<close>

definition formatRecordDates :: "(int \<Rightarrow> js_string) \<Rightarrow> int BusinessInfo \<Rightarrow> js_string BusinessInfo" where
  "formatRecordDates render r =
     \<lparr>businessName = businessName r,
      businessNumber = businessNumber r,
      businessType = businessType r,
      businessCeo = businessCeo r,
      businessItem = businessItem r,
      corporateRegistrationNumber = corporateRegistrationNumber r,
      businessTel = businessTel r,
      businessMobile = businessMobile r,
      businessCeoEmail = businessCeoEmail r,
      businessFax = businessFax r,
      businessZipcode = businessZipcode r,
      businessAddress = businessAddress r,
      businessAddressDetail = businessAddressDetail r,
      isDeleted = isDeleted r,
      createdAt = render (createdAt r),
      updatedAt = render (updatedAt r)\<rparr>"

definition formatBusinessInfoArrayDates ::
    "(int \<Rightarrow> js_string) \<Rightarrow> int BusinessInfo list \<Rightarrow> js_string BusinessInfo list" where
  "formatBusinessInfoArrayDates render rows = map (formatRecordDates render) rows"

section \<open>The query builder\<close>

text \<open>
  A query under construction is the list of its where-clauses, each with the connective
  that attaches it, its ordering, and its skip and take. A condition carries the value
  bound to its parameter (\<open>:keyword\<close>, \<open>:searchDate\<close>, \<open>:startDate\<close>, \<open>:endDate\<close>: each
  name is bound to one value per query), and names its column without the alias
  \<open>business.\<close>.
\<close>

datatype connective = SimpleWhere | AndWhere | OrWhere

datatype condition =
    IsDeletedFalse
  | Like string js_string
  | DateEquals string Date
  | GreaterEq string iso_string
  | LessEq string iso_string
  | Brackets "(connective \<times> condition) list"

type_synonym where_clauses = "(connective \<times> condition) list"

datatype direction = ASC | DESC

record query =
  wheres :: where_clauses
  orderBys :: "(string \<times> direction) list"
  skipped :: "int option"
  taken :: "int option"

definition createQueryBuilder :: query where
  "createQueryBuilder = \<lparr>wheres = [], orderBys = [], skipped = None, taken = None\<rparr>"

definition where_q :: "condition \<Rightarrow> query \<Rightarrow> query" where
  "where_q c q = q\<lparr>wheres := [(SimpleWhere, c)]\<rparr>"

definition andWhere :: "condition \<Rightarrow> query \<Rightarrow> query" where
  "andWhere c q = q\<lparr>wheres := wheres q @ [(AndWhere, c)]\<rparr>"

definition orderBy :: "string \<Rightarrow> direction \<Rightarrow> query \<Rightarrow> query" where
  "orderBy column dir q = q\<lparr>orderBys := [(column, dir)]\<rparr>"

definition skip :: "int \<Rightarrow> query \<Rightarrow> query" where
  "skip n q = q\<lparr>skipped := Some n\<rparr>"

definition take_q :: "int \<Rightarrow> query \<Rightarrow> query" where
  "take_q n q = q\<lparr>taken := Some n\<rparr>"

text \<open>
  The builder handed to the callback of \<open>Brackets\<close> collects the clauses of the bracketed
  group.
\<close>

definition orWhere :: "condition \<Rightarrow> where_clauses \<Rightarrow> where_clauses" where
  "orWhere c ws = ws @ [(OrWhere, c)]"

definition addTextSearchConditions :: "where_clauses \<Rightarrow> js_string \<Rightarrow> where_clauses" where
  "addTextSearchConditions qb keyword =
     foldl (\<lambda>qb field. orWhere (Like field (js ''%'' @ keyword @ js ''%'')) qb) qb validFields"

definition addDateSearchConditions ::
    "(js_string \<Rightarrow> int option) \<Rightarrow> where_clauses \<Rightarrow> js_string \<Rightarrow> where_clauses" where
  "addDateSearchConditions heuristics qb keyword =
     (let searchDate = new_Date heuristics keyword
      in orWhere (DateEquals ''updatedAt'' searchDate)
           (orWhere (DateEquals ''createdAt'' searchDate) qb))"

section \<open>The Record Store\<close>

text \<open>
  What the service leaves to its surroundings is collected in one record, a parameter of
  every operation: the implementation-defined part of date parsing, the collation that
  orders text columns, the text a timestamp column shows to \<open>LIKE\<close>, the calendar day that
  SQL's \<open>DATE()\<close> extracts, and the rendering used by the Date Formatter.
\<close>

record 'k platform =
  dateHeuristics :: "js_string \<Rightarrow> int option"
  collation :: "js_string \<Rightarrow> 'k"
  columnAsText :: "int \<Rightarrow> js_string"
  sqlDATE :: "int \<Rightarrow> int"
  displayDate :: "int \<Rightarrow> js_string"

text \<open>
  Modelled from the spec: the Record Store, a relational table reached through a generic
  query-builder capability (\<open>equals\<close>, \<open>or\<close>, \<open>and\<close>, \<open>like\<close>, \<open>order\<close>, \<open>skip/limit\<close>,
  \<open>count\<close>); the object-relational mapper and the database are not part of the
  repository. The table is the list of its rows.

  \<open>like\<close> is SQL's pattern match: \<open>%\<close> stands for any sequence of characters, \<open>_\<close> for
  any one character, every other character for itself (case-sensitive, as the
  specification has it).
\<close>

fun like :: "js_string \<Rightarrow> js_string \<Rightarrow> bool" where
  "like [] s = (s = [])"
| "like (p # ps) [] = (p = 0x25 \<and> like ps [])"
| "like (p # ps) (c # cs) =
     (if p = 0x25 then like ps (c # cs) \<or> like (p # ps) cs
      else (p = 0x5F \<or> p = c) \<and> like ps cs)"

definition textColumns :: "'k platform \<Rightarrow> int BusinessInfo \<Rightarrow> (string \<times> js_string) list" where
  "textColumns p r =
    [(''businessName'', businessName r),
     (''businessNumber'', businessNumber r),
     (''businessType'', businessType r),
     (''businessCeo'', businessCeo r),
     (''businessItem'', businessItem r),
     (''corporateRegistrationNumber'', corporateRegistrationNumber r),
     (''businessTel'', businessTel r),
     (''businessMobile'', businessMobile r),
     (''businessCeoEmail'', businessCeoEmail r),
     (''businessFax'', businessFax r),
     (''businessZipcode'', businessZipcode r),
     (''businessAddress'', businessAddress r),
     (''businessAddressDetail'', businessAddressDetail r),
     (''createdAt'', columnAsText p (createdAt r)),
     (''updatedAt'', columnAsText p (updatedAt r))]"

definition timeColumns :: "int BusinessInfo \<Rightarrow> (string \<times> int) list" where
  "timeColumns r = [(''createdAt'', createdAt r), (''updatedAt'', updatedAt r)]"

text \<open>
  Modelled from the spec: how the store reads a list of where-clauses. They are joined in
  order, without parentheses of their own: \<open>AND\<close> binds more tightly than \<open>OR\<close>, and the
  connective of the first clause is not written. A timestamp compared with an ISO string
  is compared as an instant; \<open>DATE()\<close> of an invalid date equals nothing. A condition on a
  column the table does not have holds of no row (the service names no such column).
\<close>

fun chain :: "bool \<Rightarrow> (connective \<times> bool) list \<Rightarrow> bool" where
  "chain acc [] = acc"
| "chain acc ((OrWhere, b) # ws) = (acc \<or> chain b ws)"
| "chain acc ((_, b) # ws) = chain (acc \<and> b) ws"

definition combine :: "(connective \<times> bool) list \<Rightarrow> bool" where
  "combine ws = (case ws of [] \<Rightarrow> True | (_, b) # rest \<Rightarrow> chain b rest)"

primrec holds :: "'k platform \<Rightarrow> int BusinessInfo \<Rightarrow> condition \<Rightarrow> bool" where
  "holds p r IsDeletedFalse = (\<not> isDeleted r)"
| "holds p r (Like column pattern) =
     (case map_of (textColumns p r) column of None \<Rightarrow> False | Some t \<Rightarrow> like pattern t)"
| "holds p r (DateEquals column d) =
     (case (map_of (timeColumns r) column, d) of
        (Some t, Date (Some v)) \<Rightarrow> sqlDATE p t = sqlDATE p v
      | _ \<Rightarrow> False)"
| "holds p r (GreaterEq column s) =
     (case (map_of (timeColumns r) column, s) of
        (Some t, ISOString v) \<Rightarrow> v \<le> t
      | _ \<Rightarrow> False)"
| "holds p r (LessEq column s) =
     (case (map_of (timeColumns r) column, s) of
        (Some t, ISOString v) \<Rightarrow> t \<le> v
      | _ \<Rightarrow> False)"
| "holds p r (Brackets ws) = combine (map (map_prod id (holds p r)) ws)"

definition selected :: "'k platform \<Rightarrow> query \<Rightarrow> int BusinessInfo \<Rightarrow> bool" where
  "selected p q r = combine (map (map_prod id (holds p r)) (wheres q))"

text \<open>
  Modelled from the spec: \<open>order\<close>. Rows are ordered by the first (here: the only)
  ordering of the query, text columns by the collation and timestamp columns by time; rows
  with equal keys keep the order of the table, in ascending and in descending order alike
  (the descending order sorts the reversed table and reverses the outcome).
\<close>

definition ascending ::
    "'k::linorder platform \<Rightarrow> string \<Rightarrow> int BusinessInfo list \<Rightarrow> int BusinessInfo list" where
  "ascending p column rows =
     (if column = ''createdAt'' then sort_key createdAt rows
      else if column = ''updatedAt'' then sort_key updatedAt rows
      else sort_key
             (\<lambda>r. collation p (case map_of (textColumns p r) column of None \<Rightarrow> [] | Some t \<Rightarrow> t))
             rows)"

definition ordered :: "'k::linorder platform \<Rightarrow> query \<Rightarrow> int BusinessInfo list \<Rightarrow> int BusinessInfo list" where
  "ordered p q rows =
     (case orderBys q of
        [] \<Rightarrow> rows
      | (column, ASC) # _ \<Rightarrow> ascending p column rows
      | (column, DESC) # _ \<Rightarrow> rev (ascending p column (rev rows)))"

text \<open>
  Modelled from the spec: \<open>skip/limit\<close> and \<open>count\<close>. \<open>getManyAndCount\<close> answers with the
  page of the ordered selection and with the number of selected rows, pagination aside.
  The specification describes skip and take for \<open>page \<ge> 1\<close> and \<open>limit \<ge> 1\<close> only; a
  negative skip or take is refused by the database, and the query fails.
\<close>

definition getManyAndCount ::
    "'k::linorder platform \<Rightarrow> int BusinessInfo list \<Rightarrow> query \<Rightarrow> error + (int BusinessInfo list \<times> int)" where
  "getManyAndCount p store q =
     (let matching = filter (selected p q) store;
          offset = (case skipped q of None \<Rightarrow> 0 | Some n \<Rightarrow> n);
          rest = drop (nat offset) (ordered p q matching)
      in if offset < 0 \<or> (case taken q of None \<Rightarrow> False | Some n \<Rightarrow> n < 0)
         then Inl QueryFailedError
         else Inr (case taken q of None \<Rightarrow> rest | Some n \<Rightarrow> take (nat n) rest,
                   int (length matching)))"

section \<open>The search service: operations\<close>

text \<open>
  Each operation returns the queries it issued to the Record Store together with its
  outcome: an error raised, or the \<open>SearchResult\<close>. An omitted \<open>page\<close> or \<open>limit\<close> is
  \<open>None\<close>, and takes its default. Page numbers, limits and counts are integers, without
  the rounding of large floating-point numbers.
\<close>

record SearchResult =
  data :: "js_string BusinessInfo list"
  total' :: int
  page :: int
  limit :: int

definition orDefault :: "int \<Rightarrow> int option \<Rightarrow> int" where
  "orDefault d arg = (case arg of None \<Rightarrow> d | Some n \<Rightarrow> n)"

definition search ::
    "'k::linorder platform \<Rightarrow> int BusinessInfo list \<Rightarrow> js_string \<Rightarrow> int option \<Rightarrow> int option
       \<Rightarrow> query list \<times> (error + SearchResult)" where
  "search p store keyword pageArg limitArg =
     (let page = orDefault 1 pageArg;
          limit = orDefault 10 limitArg;
          trimmedKeyword = trim keyword;
          offset = (page - 1) * limit;
          brackets =
            (let qb = addTextSearchConditions [] trimmedKeyword
             in if isDateSearch trimmedKeyword
                then addDateSearchConditions (dateHeuristics p) qb trimmedKeyword
                else qb);
          queryBuilder =
            take_q limit
              (skip offset
                (orderBy ''businessName'' ASC
                  (andWhere (Brackets brackets)
                    (where_q IsDeletedFalse createQueryBuilder))))
      in ([queryBuilder],
          case getManyAndCount p store queryBuilder of
            Inl e \<Rightarrow> Inl e
          | Inr (rows, totalCount) \<Rightarrow>
              Inr \<lparr>data = formatBusinessInfoArrayDates (displayDate p) rows,
                   total' = totalCount, page = page, limit = limit\<rparr>))"

definition searchByDateRange ::
    "'k::linorder platform \<Rightarrow> int BusinessInfo list \<Rightarrow> js_string \<Rightarrow> js_string \<Rightarrow> int option \<Rightarrow> int option
       \<Rightarrow> query list \<times> (error + SearchResult)" where
  "searchByDateRange p store startDate endDate pageArg limitArg =
     (let page = orDefault 1 pageArg;
          limit = orDefault 10 limitArg
      in case validateDateRange startDate endDate of
           Inl e \<Rightarrow> ([], Inl e)
         | Inr _ \<Rightarrow>
            (let offset = (page - 1) * limit
             in case toISOString (new_Date (dateHeuristics p) startDate) of
                  Inl e \<Rightarrow> ([], Inl e)
                | Inr startParam \<Rightarrow>
                   (case toISOString (new_Date (dateHeuristics p) endDate) of
                      Inl e \<Rightarrow> ([], Inl e)
                    | Inr endParam \<Rightarrow>
                       (let queryBuilder =
                              take_q limit
                                (skip offset
                                  (orderBy ''createdAt'' DESC
                                    (andWhere (LessEq ''createdAt'' endParam)
                                      (andWhere (GreaterEq ''createdAt'' startParam)
                                        (where_q IsDeletedFalse createQueryBuilder)))))
                        in ([queryBuilder],
                            case getManyAndCount p store queryBuilder of
                              Inl e \<Rightarrow> Inl e
                            | Inr (rows, totalCount) \<Rightarrow>
                                Inr \<lparr>data = formatBusinessInfoArrayDates (displayDate p) rows,
                                     total' = totalCount, page = page, limit = limit\<rparr>)))))"

section \<open>A sample platform and table\<close>

text \<open>
  A platform to run the operations on: its time zone is UTC, it reads the date shapes that
  ECMAScript leaves open field by field (year, month, day, each separated by \<open>-\<close> or \<open>/\<close>),
  text is ordered by code units, and \<open>DATE()\<close> is the day number since the epoch. Dates are
  displayed only as before or after the start of 2024.
\<close>

definition fieldwiseUTC :: "js_string \<Rightarrow> int option" where
  "fieldwiseUTC s =
     (if regex_test datePattern s then
        (let y = toNumber (take 4 s);
             rest = drop 5 s;
             m = toNumber (takeWhile (atomOk Digit) rest);
             d = toNumber (drop 1 (dropWhile (atomOk Digit) rest))
         in if 1 \<le> m \<and> m \<le> 12 \<and> 1 \<le> d \<and> d \<le> 31 then Some (MakeDay y m d * msPerDay) else None)
      else None)"

definition era :: "int \<Rightarrow> js_string" where
  "era t = (if t < 1704067200000 then js ''before 2024'' else js ''2024 or later'')"

definition samplePlatform :: "js_string platform" where
  "samplePlatform =
     \<lparr>dateHeuristics = fieldwiseUTC,
      collation = (\<lambda>s. s),
      columnAsText = era,
      sqlDATE = (\<lambda>t. t div msPerDay),
      displayDate = era\<rparr>"

definition sampleRecord :: "js_string \<Rightarrow> bool \<Rightarrow> int \<Rightarrow> int BusinessInfo" where
  "sampleRecord name deleted created =
     \<lparr>businessName = name,
      businessNumber = js ''123-45-67890'',
      businessType = js ''retail'',
      businessCeo = js ''Kim'',
      businessItem = js ''goods'',
      corporateRegistrationNumber = js ''110111-1234567'',
      businessTel = js ''02-123-4567'',
      businessMobile = js ''010-1234-5678'',
      businessCeoEmail = js ''ceo@example.com'',
      businessFax = js ''02-123-4568'',
      businessZipcode = js ''04524'',
      businessAddress = js ''Seoul'',
      businessAddressDetail = js ''1F'',
      isDeleted = deleted,
      createdAt = created,
      updatedAt = created\<rparr>"

text \<open>
  Four rows: created on 2024-01-01 at midnight UTC, on 2024-01-15 at 10:00, on 2024-01-10
  (this one deleted), and on 2024-01-31 at midnight.
\<close>

definition sampleStore :: "int BusinessInfo list" where
  "sampleStore =
     [sampleRecord (js ''Cafe'') False 1704067200000,
      sampleRecord (js ''Acme'') False 1705312800000,
      sampleRecord (js ''Bolt'') True 1704844800000,
      sampleRecord (js ''Dune'') False 1706659200000]"

text \<open>A second table: three rows created at the same instant, 2024-01-15 at 10:00.\<close>

definition tiedStore :: "int BusinessInfo list" where
  "tiedStore =
     [sampleRecord (js ''P'') False 1705312800000,
      sampleRecord (js ''Q'') False 1705312800000,
      sampleRecord (js ''R'') False 1705312800000]"

section \<open>Properties of the pattern and of trimming\<close>

lemma rep_iff:
  "r \<in> set (rep a lo hi s) \<longleftrightarrow>
     (\<exists>pre. s = pre @ r \<and> lo \<le> length pre \<and> length pre \<le> hi \<and> (\<forall>c\<in>set pre. atomOk a c))"
proof (induction a lo hi s rule: rep.induct)
  case (1 a lo hi)
  then show ?case by auto
next
  case (2 a lo hi c cs)
  show ?case
  proof
    assume "r \<in> set (rep a lo hi (c # cs))"
    then consider (A) "hi \<noteq> 0" "atomOk a c" "r \<in> set (rep a (lo - 1) (hi - 1) cs)" | (B) "lo = 0" "r = c # cs"
      by (auto split: if_splits)
    then show "\<exists>pre. c # cs = pre @ r \<and> lo \<le> length pre \<and> length pre \<le> hi \<and> (\<forall>c\<in>set pre. atomOk a c)"
    proof cases
      case A
      with 2 obtain pre where "cs = pre @ r" "lo - 1 \<le> length pre" "length pre \<le> hi - 1" "\<forall>c\<in>set pre. atomOk a c"
        by auto
      with A show ?thesis by (intro exI[of _ "c # pre"]) auto
    next
      case B
      then show ?thesis by (intro exI[of _ "[]"]) auto
    qed
  next
    assume "\<exists>pre. c # cs = pre @ r \<and> lo \<le> length pre \<and> length pre \<le> hi \<and> (\<forall>c\<in>set pre. atomOk a c)"
    then obtain pre where p: "c # cs = pre @ r" "lo \<le> length pre" "length pre \<le> hi" "\<forall>c\<in>set pre. atomOk a c"
      by blast
    show "r \<in> set (rep a lo hi (c # cs))"
    proof (cases pre)
      case Nil
      with p show ?thesis by auto
    next
      case (Cons x pre')
      with p have "hi \<noteq> 0" "atomOk a c" "cs = pre' @ r" "lo - 1 \<le> length pre'" "length pre' \<le> hi - 1" "\<forall>c\<in>set pre'. atomOk a c"
        by auto
      with 2 have "r \<in> set (rep a (lo - 1) (hi - 1) cs)" by auto
      with \<open>hi \<noteq> 0\<close> \<open>atomOk a c\<close> show ?thesis by simp
    qed
  qed
qed

lemma matches_Cons_iff:
  "matches ((a, lo, hi) # r) s \<longleftrightarrow>
     (\<exists>pre rest. s = pre @ rest \<and> lo \<le> length pre \<and> length pre \<le> hi \<and>
        (\<forall>c\<in>set pre. atomOk a c) \<and> matches r rest)"
proof -
  have "matches ((a, lo, hi) # r) s \<longleftrightarrow> (\<exists>rest. rest \<in> set (rep a lo hi s) \<and> matches r rest)"
    by (simp add: list_ex_iff Bex_def)
  also have "\<dots> \<longleftrightarrow> (\<exists>rest. (\<exists>pre. s = pre @ rest \<and> lo \<le> length pre \<and> length pre \<le> hi \<and>
        (\<forall>c\<in>set pre. atomOk a c)) \<and> matches r rest)"
    by (simp only: rep_iff)
  also have "\<dots> \<longleftrightarrow> (\<exists>pre rest. s = pre @ rest \<and> lo \<le> length pre \<and> length pre \<le> hi \<and>
        (\<forall>c\<in>set pre. atomOk a c) \<and> matches r rest)"
    by iprover
  finally show ?thesis .
qed

lemma matches_first:
  assumes "matches ((a, lo, hi) # r) s" "0 < lo"
  shows "s \<noteq> [] \<and> atomOk a (hd s)"
proof -
  from assms obtain pre rest where "s = pre @ rest" "lo \<le> length pre" "\<forall>c\<in>set pre. atomOk a c"
    unfolding matches_Cons_iff by blast
  with \<open>0 < lo\<close> show ?thesis by (cases pre) auto
qed

lemma matches_last:
  assumes "matches r s" "r \<noteq> []" "0 < fst (snd (last r))"
  shows "s \<noteq> [] \<and> atomOk (fst (last r)) (last s)"
  using assms
proof (induction r arbitrary: s)
  case Nil
  then show ?case by simp
next
  case (Cons x r)
  obtain a lo hi where x: "x = (a, lo, hi)" by (cases x)
  from Cons.prems(1) obtain pre rest where d: "s = pre @ rest" "lo \<le> length pre"
      "\<forall>c\<in>set pre. atomOk a c" "matches r rest"
    unfolding x matches_Cons_iff by blast
  show ?case
  proof (cases "r = []")
    case True
    with d have "rest = []" by simp
    with True d Cons.prems x show ?thesis by (cases pre rule: rev_cases) auto
  next
    case False
    with Cons.IH[OF d(4)] Cons.prems have "rest \<noteq> [] \<and> atomOk (fst (last r)) (last rest)"
      by simp
    with False d show ?thesis by simp
  qed
qed

lemma white_not_digit: "isWhiteSpace c \<Longrightarrow> \<not> atomOk Digit c"
  unfolding isWhiteSpace_def by (auto simp: word_le_nat_alt)

lemma datePattern_ends:
  assumes "regex_test datePattern s"
  shows "s \<noteq> [] \<and> atomOk Digit (hd s) \<and> atomOk Digit (last s)"
proof -
  have m: "matches datePattern s" using assms by (simp add: regex_test_def)
  have "s \<noteq> [] \<and> atomOk Digit (hd s)"
    using m unfolding datePattern_def by (rule matches_first) simp
  moreover have "atomOk (fst (last datePattern)) (last s)"
    using matches_last[OF m] by (simp add: datePattern_def)
  ultimately show ?thesis by (simp add: datePattern_def)
qed

lemma datePattern_rejects_padding:
  assumes "s \<noteq> []" "isWhiteSpace (hd s) \<or> isWhiteSpace (last s)"
  shows "\<not> regex_test datePattern s"
  using assms datePattern_ends[of s] white_not_digit by blast

lemma trim_trim: "trim (trim s) = trim s"
proof -
  define t where "t = dropWhile isWhiteSpace (rev (dropWhile isWhiteSpace s))"
  have "dropWhile isWhiteSpace (rev t) = rev t"
  proof (cases "rev t")
    case Nil
    then show ?thesis by simp
  next
    case (Cons x xs)
    obtain u where u: "rev (dropWhile isWhiteSpace s) = u @ t"
      unfolding t_def by (metis takeWhile_dropWhile_id)
    then have "dropWhile isWhiteSpace s = rev t @ rev u"
      by (metis rev_append rev_rev_ident)
    with Cons have "dropWhile isWhiteSpace s = x # (xs @ rev u)" by simp
    then have "\<not> isWhiteSpace x"
      by (metis hd_dropWhile list.sel(1) list.distinct(1))
    with Cons show ?thesis by simp
  qed
  moreover have "dropWhile isWhiteSpace t = t"
    unfolding t_def by simp
  ultimately show ?thesis
    unfolding trim_def t_def[symmetric] by simp
qed

lemma foldl_snoc_map: "foldl (\<lambda>acc x. acc @ [g x]) acc xs = acc @ map g xs"
  by (induction xs arbitrary: acc) simp_all

lemma addTextSearchConditions_eq:
  "addTextSearchConditions qb keyword =
     qb @ map (\<lambda>field. (OrWhere, Like field (js ''%'' @ keyword @ js ''%''))) validFields"
  unfolding addTextSearchConditions_def orWhere_def by (rule foldl_snoc_map)

lemma chain_or: "chain acc (map (Pair OrWhere) bs) \<longleftrightarrow> acc \<or> (\<exists>b\<in>set bs. b)"
  by (induction bs arbitrary: acc) auto

lemma combine_or: "combine (map (Pair OrWhere) bs) \<longleftrightarrow> bs = [] \<or> (\<exists>b\<in>set bs. b)"
  by (cases bs) (auto simp: combine_def chain_or)

lemma like_any: "like (js ''%%'') s"
  by (induction s) (simp_all add: js_def)

section \<open>Properties of the Record Store\<close>

lemma holds_Brackets_or:
  "holds p r (Brackets (map (Pair OrWhere) cs)) \<longleftrightarrow> cs = [] \<or> (\<exists>c\<in>set cs. holds p r c)"
proof -
  have "map (map_prod id (holds p r)) (map (Pair OrWhere) cs) = map (Pair OrWhere) (map (holds p r) cs)"
    by simp
  then show ?thesis by (simp only: holds.simps combine_or) auto
qed

lemma validFields_text: "f \<in> set validFields \<Longrightarrow> map_of (textColumns p r) f \<noteq> None"
  by (auto simp: validFields_def textColumns_def)

lemma set_ordered: "set (ordered p q rows) = set rows"
  by (auto simp: ordered_def ascending_def split: list.splits direction.splits)

lemma length_ordered: "length (ordered p q rows) = length rows"
  by (auto simp: ordered_def ascending_def split: list.splits direction.splits)

lemma getManyAndCount_Inr:
  assumes "getManyAndCount p store q = Inr (rows, n)"
  shows "set rows \<subseteq> {r \<in> set store. selected p q r}"
    and "n = int (length (filter (selected p q) store))"
proof -
  let ?rest = "drop (nat (case skipped q of None \<Rightarrow> 0 | Some n \<Rightarrow> n)) (ordered p q (filter (selected p q) store))"
  from assms have rows: "rows = (case taken q of None \<Rightarrow> ?rest | Some n \<Rightarrow> take (nat n) ?rest)"
    and n: "n = int (length (filter (selected p q) store))"
    by (auto simp: getManyAndCount_def Let_def split: if_splits)
  have "set rows \<subseteq> set ?rest"
    unfolding rows by (auto split: option.splits dest: in_set_takeD)
  also have "\<dots> \<subseteq> set (ordered p q (filter (selected p q) store))"
    by (rule set_drop_subset)
  finally show "set rows \<subseteq> {r \<in> set store. selected p q r}"
    by (auto simp: set_ordered)
  show "n = int (length (filter (selected p q) store))" by (rule n)
qed

lemma getManyAndCount_page:
  assumes "skipped q = Some off" "taken q = Some lim" "0 \<le> off" "0 \<le> lim"
  shows "getManyAndCount p store q =
           Inr (take (nat lim) (drop (nat off) (ordered p q (filter (selected p q) store))),
                int (length (filter (selected p q) store)))"
  using assms by (simp add: getManyAndCount_def Let_def)

lemma ordered_by_name:
  assumes "orderBys q = [(''businessName'', ASC)]"
  shows "sorted (map (\<lambda>r. collation p (businessName r)) (ordered p q rows))"
proof -
  have "ordered p q rows = sort_key (\<lambda>r. collation p (businessName r)) rows"
    using assms by (simp add: ordered_def ascending_def textColumns_def)
  then show ?thesis by simp
qed

lemma ordered_by_createdAt_desc:
  assumes "orderBys q = [(''createdAt'', DESC)]"
  shows "sorted_wrt (\<lambda>a b. createdAt b \<le> createdAt a) (ordered p q rows)"
proof -
  have "ordered p q rows = rev (sort_key createdAt (rev rows))"
    using assms by (simp add: ordered_def ascending_def)
  moreover have "sorted_wrt (\<lambda>a b. createdAt a \<le> createdAt b) (sort_key createdAt (rev rows))"
    using sorted_sort_key[of createdAt "rev rows"] by (simp add: sorted_map)
  ultimately show ?thesis by (simp add: sorted_wrt_rev)
qed

section \<open>What the operations issue and return\<close>

lemma search_run:
  "\<exists>q. search p store keyword pageArg limitArg =
         ([q], case getManyAndCount p store q of
                 Inl e \<Rightarrow> Inl e
               | Inr (rows, n) \<Rightarrow>
                   Inr \<lparr>data = formatBusinessInfoArrayDates (displayDate p) rows, total' = n,
                        page = orDefault 1 pageArg, limit = orDefault 10 limitArg\<rparr>) \<and>
       wheres q =
         [(SimpleWhere, IsDeletedFalse),
          (AndWhere, Brackets
             (map (\<lambda>field. (OrWhere, Like field (js ''%'' @ trim keyword @ js ''%''))) validFields @
              (if regex_test datePattern (trim keyword)
               then [(OrWhere, DateEquals ''createdAt'' (new_Date (dateHeuristics p) (trim keyword))),
                     (OrWhere, DateEquals ''updatedAt'' (new_Date (dateHeuristics p) (trim keyword)))]
               else [])))] \<and>
       orderBys q = [(''businessName'', ASC)] \<and>
       skipped q = Some ((orDefault 1 pageArg - 1) * orDefault 10 limitArg) \<and>
       taken q = Some (orDefault 10 limitArg)"
  by (simp add: search_def Let_def addTextSearchConditions_eq addDateSearchConditions_def
      isDateSearch_def orWhere_def take_q_def skip_def orderBy_def andWhere_def where_q_def
      createQueryBuilder_def)

lemma range_invalid:
  assumes "\<not> regex_test datePattern startDate \<or> \<not> regex_test datePattern endDate"
  shows "searchByDateRange p store startDate endDate pageArg limitArg =
           ([], Inl (BadRequestException dateFormatMessage))"
  using assms by (auto simp: searchByDateRange_def validateDateRange_def Let_def)

lemma range_unparsed:
  assumes "regex_test datePattern startDate" "regex_test datePattern endDate"
    and "new_Date (dateHeuristics p) startDate = Date None \<or>
         new_Date (dateHeuristics p) endDate = Date None"
  shows "searchByDateRange p store startDate endDate pageArg limitArg = ([], Inl RangeError)"
proof (cases "new_Date (dateHeuristics p) startDate")
  case (Date t)
  show ?thesis
  proof (cases t)
    case None
    with Date assms show ?thesis
      by (simp add: searchByDateRange_def validateDateRange_def Let_def)
  next
    case (Some a)
    with Date assms have "new_Date (dateHeuristics p) endDate = Date None" by simp
    with Date Some assms show ?thesis
      by (simp add: searchByDateRange_def validateDateRange_def Let_def)
  qed
qed

lemma range_run:
  assumes "regex_test datePattern startDate" "regex_test datePattern endDate"
    and "new_Date (dateHeuristics p) startDate = Date (Some a)"
    and "new_Date (dateHeuristics p) endDate = Date (Some b)"
  shows "\<exists>q. searchByDateRange p store startDate endDate pageArg limitArg =
         ([q], case getManyAndCount p store q of
                 Inl e \<Rightarrow> Inl e
               | Inr (rows, n) \<Rightarrow>
                   Inr \<lparr>data = formatBusinessInfoArrayDates (displayDate p) rows, total' = n,
                        page = orDefault 1 pageArg, limit = orDefault 10 limitArg\<rparr>) \<and>
       wheres q =
         [(SimpleWhere, IsDeletedFalse),
          (AndWhere, GreaterEq ''createdAt'' (ISOString a)),
          (AndWhere, LessEq ''createdAt'' (ISOString b))] \<and>
       orderBys q = [(''createdAt'', DESC)] \<and>
       skipped q = Some ((orDefault 1 pageArg - 1) * orDefault 10 limitArg) \<and>
       taken q = Some (orDefault 10 limitArg)"
  using assms
  by (simp add: searchByDateRange_def validateDateRange_def Let_def
      take_q_def skip_def orderBy_def andWhere_def where_q_def createQueryBuilder_def)

lemma selected_search:
  assumes "wheres q =
         [(SimpleWhere, IsDeletedFalse),
          (AndWhere, Brackets
             (map (\<lambda>field. (OrWhere, Like field pat)) validFields @
              (if dated then [(OrWhere, DateEquals ''createdAt'' d), (OrWhere, DateEquals ''updatedAt'' d)]
               else [])))]"
  shows "selected p q r \<longleftrightarrow>
           \<not> isDeleted r \<and>
           ((\<exists>field\<in>set validFields. holds p r (Like field pat)) \<or>
            (dated \<and> (holds p r (DateEquals ''createdAt'' d) \<or> holds p r (DateEquals ''updatedAt'' d))))"
proof -
  let ?cs = "map (\<lambda>field. Like field pat) validFields @
             (if dated then [DateEquals ''createdAt'' d, DateEquals ''updatedAt'' d] else [])"
  have "map (\<lambda>field. (OrWhere, Like field pat)) validFields @
        (if dated then [(OrWhere, DateEquals ''createdAt'' d), (OrWhere, DateEquals ''updatedAt'' d)] else [])
        = map (Pair OrWhere) ?cs"
    by simp
  with assms have w: "wheres q = [(SimpleWhere, IsDeletedFalse), (AndWhere, Brackets (map (Pair OrWhere) ?cs))]"
    by simp
  have ne: "?cs \<noteq> []" by (simp add: validFields_def)
  have "selected p q r \<longleftrightarrow> \<not> isDeleted r \<and> holds p r (Brackets (map (Pair OrWhere) ?cs))"
    unfolding selected_def w by (simp add: combine_def del: holds.simps(6))
  also have "holds p r (Brackets (map (Pair OrWhere) ?cs)) \<longleftrightarrow> (\<exists>c\<in>set ?cs. holds p r c)"
    using ne by (simp only: holds_Brackets_or) simp
  also have "(\<exists>c\<in>set ?cs. holds p r c) \<longleftrightarrow>
       ((\<exists>field\<in>set validFields. holds p r (Like field pat)) \<or>
        (dated \<and> (holds p r (DateEquals ''createdAt'' d) \<or> holds p r (DateEquals ''updatedAt'' d))))"
    by (cases dated) (auto simp del: holds.simps)
  finally show ?thesis .
qed

lemma selected_range:
  assumes "wheres q =
         [(SimpleWhere, IsDeletedFalse),
          (AndWhere, GreaterEq ''createdAt'' (ISOString a)),
          (AndWhere, LessEq ''createdAt'' (ISOString b))]"
  shows "selected p q r \<longleftrightarrow> \<not> isDeleted r \<and> a \<le> createdAt r \<and> createdAt r \<le> b"
  unfolding selected_def assms by (simp add: combine_def timeColumns_def)

lemma getManyAndCount_negative:
  assumes "skipped q = Some n" "n < 0"
  shows "getManyAndCount p store q = Inl QueryFailedError"
  using assms by (simp add: getManyAndCount_def Let_def)

lemma getManyAndCount_Inl: "getManyAndCount p store q = Inl e \<Longrightarrow> e = QueryFailedError"
  by (auto simp: getManyAndCount_def Let_def split: if_splits)

lemma search_outcome:
  "snd (search p store keyword pageArg limitArg) = Inl QueryFailedError \<or>
   (\<exists>r. snd (search p store keyword pageArg limitArg) = Inr r)"
proof -
  obtain q where "snd (search p store keyword pageArg limitArg) =
      (case getManyAndCount p store q of
                 Inl e \<Rightarrow> Inl e
               | Inr (rows, n) \<Rightarrow>
                   Inr \<lparr>data = formatBusinessInfoArrayDates (displayDate p) rows, total' = n,
                        page = orDefault 1 pageArg, limit = orDefault 10 limitArg\<rparr>)"
    using search_run[of p store keyword pageArg limitArg] by auto
  then show ?thesis
    by (cases "getManyAndCount p store q") (auto dest: getManyAndCount_Inl)
qed

lemma range_outcome:
  assumes "regex_test datePattern startDate" "regex_test datePattern endDate"
  shows "snd (searchByDateRange p store startDate endDate pageArg limitArg) = Inl RangeError \<or>
         snd (searchByDateRange p store startDate endDate pageArg limitArg) = Inl QueryFailedError \<or>
         (\<exists>r. snd (searchByDateRange p store startDate endDate pageArg limitArg) = Inr r)"
proof -
  obtain s where s: "new_Date (dateHeuristics p) startDate = Date s"
    by (cases "new_Date (dateHeuristics p) startDate")
  obtain e where e: "new_Date (dateHeuristics p) endDate = Date e"
    by (cases "new_Date (dateHeuristics p) endDate")
  show ?thesis
  proof (cases "s = None \<or> e = None")
    case True
    with s e have "searchByDateRange p store startDate endDate pageArg limitArg = ([], Inl RangeError)"
      by (intro range_unparsed assms) auto
    then show ?thesis by simp
  next
    case False
    then obtain a b where "s = Some a" "e = Some b" by auto
    with s e obtain q where "snd (searchByDateRange p store startDate endDate pageArg limitArg) =
      (case getManyAndCount p store q of
                 Inl e \<Rightarrow> Inl e
               | Inr (rows, n) \<Rightarrow>
                   Inr \<lparr>data = formatBusinessInfoArrayDates (displayDate p) rows, total' = n,
                        page = orDefault 1 pageArg, limit = orDefault 10 limitArg\<rparr>)"
      using range_run[OF assms, of p a b store pageArg limitArg] by auto
    then show ?thesis
      by (cases "getManyAndCount p store q") (auto dest: getManyAndCount_Inl)
  qed
qed

lemmas sample_eval =
  js_def regex_test_def datePattern_def isoDatePattern_def Date_parse_def toNumber_def
  DaysInMonth_def monthLengths_def MakeDay_def DayFromYear_def InLeapYear_def msPerDay_def
  TimeClip_def new_Date_def fieldwiseUTC_def samplePlatform_def trim_def isWhiteSpace_def


lemma getManyAndCount_rows:
  assumes "getManyAndCount p store q = Inr (rows, n)"
  shows "\<exists>i j. rows = take i (drop j (ordered p q (filter (selected p q) store)))"
proof -
  let ?rest = "drop (nat (case skipped q of None \<Rightarrow> 0 | Some n \<Rightarrow> n)) (ordered p q (filter (selected p q) store))"
  from assms have rows: "rows = (case taken q of None \<Rightarrow> ?rest | Some n \<Rightarrow> take (nat n) ?rest)"
    by (auto simp: getManyAndCount_def Let_def split: if_splits)
  show ?thesis
  proof (cases "taken q")
    case None
    with rows have "rows = take (length ?rest) ?rest" by simp
    then show ?thesis by blast
  next
    case (Some k)
    with rows show ?thesis by auto
  qed
qed

lemma getManyAndCount_sorted:
  assumes "getManyAndCount p store q = Inr (rows, n)"
    and "sorted_wrt P (ordered p q (filter (selected p q) store))"
  shows "sorted_wrt P rows"
proof -
  from getManyAndCount_rows[OF assms(1)] obtain i j
    where "rows = take i (drop j (ordered p q (filter (selected p q) store)))" by blast
  with assms(2) show ?thesis by (simp add: sorted_wrt_take sorted_wrt_drop)
qed

lemma search_returns:
  assumes "snd (search p store keyword pageArg limitArg) = Inr r"
  shows "\<exists>q rows n. search p store keyword pageArg limitArg = ([q], Inr r) \<and>
       getManyAndCount p store q = Inr (rows, n) \<and>
       r = \<lparr>data = formatBusinessInfoArrayDates (displayDate p) rows, total' = n,
             page = orDefault 1 pageArg, limit = orDefault 10 limitArg\<rparr> \<and>
       wheres q =
         [(SimpleWhere, IsDeletedFalse),
          (AndWhere, Brackets
             (map (\<lambda>field. (OrWhere, Like field (js ''%'' @ trim keyword @ js ''%''))) validFields @
              (if regex_test datePattern (trim keyword)
               then [(OrWhere, DateEquals ''createdAt'' (new_Date (dateHeuristics p) (trim keyword))),
                     (OrWhere, DateEquals ''updatedAt'' (new_Date (dateHeuristics p) (trim keyword)))]
               else [])))] \<and>
       orderBys q = [(''businessName'', ASC)]"
proof -
  from search_run[of p store keyword pageArg limitArg] obtain q where
    run: "search p store keyword pageArg limitArg =
         ([q], case getManyAndCount p store q of
                 Inl e \<Rightarrow> Inl e
               | Inr (rows, n) \<Rightarrow>
                   Inr \<lparr>data = formatBusinessInfoArrayDates (displayDate p) rows, total' = n,
                        page = orDefault 1 pageArg, limit = orDefault 10 limitArg\<rparr>)"
    and w: "wheres q =
         [(SimpleWhere, IsDeletedFalse),
          (AndWhere, Brackets
             (map (\<lambda>field. (OrWhere, Like field (js ''%'' @ trim keyword @ js ''%''))) validFields @
              (if regex_test datePattern (trim keyword)
               then [(OrWhere, DateEquals ''createdAt'' (new_Date (dateHeuristics p) (trim keyword))),
                     (OrWhere, DateEquals ''updatedAt'' (new_Date (dateHeuristics p) (trim keyword)))]
               else [])))]"
    and o: "orderBys q = [(''businessName'', ASC)]"
    by blast
  show ?thesis
  proof (cases "getManyAndCount p store q")
    case (Inl e)
    with run assms show ?thesis by simp
  next
    case (Inr res)
    obtain rows n where "res = (rows, n)" by (cases res)
    with Inr run assms w o show ?thesis by auto
  qed
qed

lemma range_returns:
  assumes "snd (searchByDateRange p store startDate endDate pageArg limitArg) = Inr r"
  shows "\<exists>a b q rows n.
       regex_test datePattern startDate \<and> regex_test datePattern endDate \<and>
       new_Date (dateHeuristics p) startDate = Date (Some a) \<and>
       new_Date (dateHeuristics p) endDate = Date (Some b) \<and>
       searchByDateRange p store startDate endDate pageArg limitArg = ([q], Inr r) \<and>
       getManyAndCount p store q = Inr (rows, n) \<and>
       r = \<lparr>data = formatBusinessInfoArrayDates (displayDate p) rows, total' = n,
             page = orDefault 1 pageArg, limit = orDefault 10 limitArg\<rparr> \<and>
       wheres q =
         [(SimpleWhere, IsDeletedFalse),
          (AndWhere, GreaterEq ''createdAt'' (ISOString a)),
          (AndWhere, LessEq ''createdAt'' (ISOString b))] \<and>
       orderBys q = [(''createdAt'', DESC)]"
proof -
  have "\<not> (\<not> regex_test datePattern startDate \<or> \<not> regex_test datePattern endDate)"
  proof
    assume "\<not> regex_test datePattern startDate \<or> \<not> regex_test datePattern endDate"
    then have "snd (searchByDateRange p store startDate endDate pageArg limitArg) =
        Inl (BadRequestException dateFormatMessage)"
      by (simp add: range_invalid)
    with assms show False by simp
  qed
  then have v: "regex_test datePattern startDate" "regex_test datePattern endDate"
    by simp_all
  obtain s where s: "new_Date (dateHeuristics p) startDate = Date s"
    by (cases "new_Date (dateHeuristics p) startDate")
  obtain e where e: "new_Date (dateHeuristics p) endDate = Date e"
    by (cases "new_Date (dateHeuristics p) endDate")
  have "s \<noteq> None \<and> e \<noteq> None"
  proof (rule ccontr)
    assume "\<not> (s \<noteq> None \<and> e \<noteq> None)"
    with s e have "new_Date (dateHeuristics p) startDate = Date None \<or>
         new_Date (dateHeuristics p) endDate = Date None"
      by auto
    from range_unparsed[OF v this, of store pageArg limitArg] assms show False by simp
  qed
  then obtain a b where ab: "s = Some a" "e = Some b" by auto
  from range_run[OF v, of p a b store pageArg limitArg] s e ab obtain q where
    run: "searchByDateRange p store startDate endDate pageArg limitArg =
         ([q], case getManyAndCount p store q of
                 Inl e \<Rightarrow> Inl e
               | Inr (rows, n) \<Rightarrow>
                   Inr \<lparr>data = formatBusinessInfoArrayDates (displayDate p) rows, total' = n,
                        page = orDefault 1 pageArg, limit = orDefault 10 limitArg\<rparr>)"
    and w: "wheres q =
         [(SimpleWhere, IsDeletedFalse),
          (AndWhere, GreaterEq ''createdAt'' (ISOString a)),
          (AndWhere, LessEq ''createdAt'' (ISOString b))]"
    and o: "orderBys q = [(''createdAt'', DESC)]"
    by blast
  show ?thesis
  proof (cases "getManyAndCount p store q")
    case (Inl err)
    with run assms show ?thesis by simp
  next
    case (Inr res)
    obtain rows n where "res = (rows, n)" by (cases res)
    with Inr run assms w o v s e ab show ?thesis by auto
  qed
qed

lemma formatted_fields:
  "businessName (formatRecordDates f y) = businessName y"
  "businessNumber (formatRecordDates f y) = businessNumber y"
  "businessType (formatRecordDates f y) = businessType y"
  "businessCeo (formatRecordDates f y) = businessCeo y"
  "businessItem (formatRecordDates f y) = businessItem y"
  "corporateRegistrationNumber (formatRecordDates f y) = corporateRegistrationNumber y"
  "businessTel (formatRecordDates f y) = businessTel y"
  "businessMobile (formatRecordDates f y) = businessMobile y"
  "businessCeoEmail (formatRecordDates f y) = businessCeoEmail y"
  "businessFax (formatRecordDates f y) = businessFax y"
  "businessZipcode (formatRecordDates f y) = businessZipcode y"
  "businessAddress (formatRecordDates f y) = businessAddress y"
  "businessAddressDetail (formatRecordDates f y) = businessAddressDetail y"
  "isDeleted (formatRecordDates f y) = isDeleted y"
  "createdAt (formatRecordDates f y) = f (createdAt y)"
  "updatedAt (formatRecordDates f y) = f (updatedAt y)"
  by (simp_all add: formatRecordDates_def)

lemma range_page:
  assumes "regex_test datePattern startDate" "regex_test datePattern endDate"
    and "new_Date (dateHeuristics p) startDate = Date (Some a)"
    and "new_Date (dateHeuristics p) endDate = Date (Some b)"
    and "1 \<le> orDefault 1 pageArg" "1 \<le> orDefault 10 limitArg"
  shows "\<exists>q. searchByDateRange p store startDate endDate pageArg limitArg =
           ([q], Inr \<lparr>data = formatBusinessInfoArrayDates (displayDate p)
                          (take (nat (orDefault 10 limitArg))
                            (drop (nat ((orDefault 1 pageArg - 1) * orDefault 10 limitArg))
                              (rev (sort_key createdAt
                                (rev (filter (\<lambda>r. \<not> isDeleted r \<and> a \<le> createdAt r \<and> createdAt r \<le> b) store)))))),
                       total' = int (length
                          (filter (\<lambda>r. \<not> isDeleted r \<and> a \<le> createdAt r \<and> createdAt r \<le> b) store)),
                       page = orDefault 1 pageArg, limit = orDefault 10 limitArg\<rparr>) \<and>
         wheres q =
           [(SimpleWhere, IsDeletedFalse),
            (AndWhere, GreaterEq ''createdAt'' (ISOString a)),
            (AndWhere, LessEq ''createdAt'' (ISOString b))]"
proof -
  from range_run[OF assms(1-4), of store pageArg limitArg] obtain q where
    run: "searchByDateRange p store startDate endDate pageArg limitArg =
         ([q], case getManyAndCount p store q of
                 Inl e \<Rightarrow> Inl e
               | Inr (rows, n) \<Rightarrow>
                   Inr \<lparr>data = formatBusinessInfoArrayDates (displayDate p) rows, total' = n,
                        page = orDefault 1 pageArg, limit = orDefault 10 limitArg\<rparr>)"
    and w: "wheres q =
         [(SimpleWhere, IsDeletedFalse),
          (AndWhere, GreaterEq ''createdAt'' (ISOString a)),
          (AndWhere, LessEq ''createdAt'' (ISOString b))]"
    and o: "orderBys q = [(''createdAt'', DESC)]"
    and s: "skipped q = Some ((orDefault 1 pageArg - 1) * orDefault 10 limitArg)"
    and t: "taken q = Some (orDefault 10 limitArg)"
    by blast
  have sel: "selected p q = (\<lambda>r. \<not> isDeleted r \<and> a \<le> createdAt r \<and> createdAt r \<le> b)"
    by (rule ext) (rule selected_range[OF w])
  have ord: "ordered p q rows = rev (sort_key createdAt (rev rows))" for rows
    using o by (simp add: ordered_def ascending_def)
  have "getManyAndCount p store q =
           Inr (take (nat (orDefault 10 limitArg))
                  (drop (nat ((orDefault 1 pageArg - 1) * orDefault 10 limitArg))
                     (ordered p q (filter (selected p q) store))),
                int (length (filter (selected p q) store)))"
    using s t assms(5,6) by (intro getManyAndCount_page) simp_all
  with run w show ?thesis
    by (simp add: sel ord)
qed

lemma search_blank:
  assumes "trim keyword = []" "1 \<le> orDefault 1 pageArg" "1 \<le> orDefault 10 limitArg"
  shows "\<exists>q. search p store keyword pageArg limitArg =
         ([q], Inr \<lparr>data = formatBusinessInfoArrayDates (displayDate p)
                        (take (nat (orDefault 10 limitArg))
                          (drop (nat ((orDefault 1 pageArg - 1) * orDefault 10 limitArg))
                            (sort_key (\<lambda>r. collation p (businessName r))
                              (filter (\<lambda>r. \<not> isDeleted r) store)))),
                     total' = int (length (filter (\<lambda>r. \<not> isDeleted r) store)),
                     page = orDefault 1 pageArg, limit = orDefault 10 limitArg\<rparr>)"
proof -
  from search_run[of p store keyword pageArg limitArg] obtain q where
    run: "search p store keyword pageArg limitArg =
       ([q], case getManyAndCount p store q of
               Inl e \<Rightarrow> Inl e
             | Inr (rows, n) \<Rightarrow>
                 Inr \<lparr>data = formatBusinessInfoArrayDates (displayDate p) rows, total' = n,
                      page = orDefault 1 pageArg, limit = orDefault 10 limitArg\<rparr>)"
    and w: "wheres q =
       [(SimpleWhere, IsDeletedFalse),
        (AndWhere, Brackets
           (map (\<lambda>field. (OrWhere, Like field (js ''%'' @ trim keyword @ js ''%''))) validFields @
            (if regex_test datePattern (trim keyword)
             then [(OrWhere, DateEquals ''createdAt'' (new_Date (dateHeuristics p) (trim keyword))),
                   (OrWhere, DateEquals ''updatedAt'' (new_Date (dateHeuristics p) (trim keyword)))]
             else [])))]"
    and o: "orderBys q = [(''businessName'', ASC)]"
    and s: "skipped q = Some ((orDefault 1 pageArg - 1) * orDefault 10 limitArg)"
    and t: "taken q = Some (orDefault 10 limitArg)"
    by blast
  have pat: "js ''%'' @ trim keyword @ js ''%'' = js ''%%''"
    by (simp add: assms(1) js_def)
  have name: "holds p r (Like ''businessName'' (js ''%%''))" for r
    by (simp add: textColumns_def like_any)
  have "selected p q r \<longleftrightarrow> \<not> isDeleted r" for r
  proof -
    have "\<exists>field\<in>set validFields. holds p r (Like field (js ''%%''))"
      using name by (intro bexI[of _ "''businessName''"]) (simp_all add: validFields_def)
    then show ?thesis
      unfolding selected_search[OF w] pat by blast
  qed
  then have sel: "selected p q = (\<lambda>r. \<not> isDeleted r)" by (intro ext)
  have ord: "ordered p q rows = sort_key (\<lambda>r. collation p (businessName r)) rows" for rows
    using o by (simp add: ordered_def ascending_def textColumns_def)
  have "getManyAndCount p store q =
         Inr (take (nat (orDefault 10 limitArg))
                (drop (nat ((orDefault 1 pageArg - 1) * orDefault 10 limitArg))
                   (ordered p q (filter (selected p q) store))),
              int (length (filter (selected p q) store)))"
    using s t assms(2,3) by (intro getManyAndCount_page) simp_all
  with run show ?thesis by (simp add: sel ord)
qed

section \<open>The operations on the sample table\<close>

lemma sample_dates:
  "regex_test datePattern (js ''2024-01-01'')"
  "regex_test datePattern (js ''2024/01/31'')"
  "regex_test datePattern (js ''2024-01-31'')"
  "regex_test datePattern (js ''2024-13-01'')"
  "new_Date (dateHeuristics samplePlatform) (js ''2024-01-01'') = Date (Some 1704067200000)"
  "new_Date (dateHeuristics samplePlatform) (js ''2024/01/31'') = Date (Some 1706659200000)"
  "new_Date (dateHeuristics samplePlatform) (js ''2024-01-31'') = Date (Some 1706659200000)"
  "new_Date (dateHeuristics samplePlatform) (js ''2024-13-01'') = Date None"
  by (simp_all add: sample_eval)

lemma sample_live:
  "sort_key businessName (filter (\<lambda>r. \<not> isDeleted r) sampleStore) =
      [sampleStore ! 1, sampleStore ! 0, sampleStore ! 3]"
  "length (filter (\<lambda>r. \<not> isDeleted r) sampleStore) = 3"
  by (simp_all add: sampleStore_def sampleRecord_def js_def)

lemma sample_january:
  "rev (sort_key createdAt
      (rev (filter (\<lambda>r. \<not> isDeleted r \<and> 1704067200000 \<le> createdAt r \<and> createdAt r \<le> 1706659200000) sampleStore))) =
      [sampleStore ! 3, sampleStore ! 1, sampleStore ! 0]"
  "length (filter (\<lambda>r. \<not> isDeleted r \<and> 1704067200000 \<le> createdAt r \<and> createdAt r \<le> 1706659200000) sampleStore) = 3"
  by (simp_all add: sampleStore_def sampleRecord_def)

lemma tied_january:
  "rev (sort_key createdAt
      (rev (filter (\<lambda>r. \<not> isDeleted r \<and> 1704067200000 \<le> createdAt r \<and> createdAt r \<le> 1706659200000) tiedStore))) =
      [tiedStore ! 0, tiedStore ! 1, tiedStore ! 2]"
  "length (filter (\<lambda>r. \<not> isDeleted r \<and> 1704067200000 \<le> createdAt r \<and> createdAt r \<le> 1706659200000) tiedStore) = 3"
  by (simp_all add: tiedStore_def sampleRecord_def)

lemma sample_platform:
  "displayDate samplePlatform = era" "collation samplePlatform = (\<lambda>s. s)"
  by (simp_all add: samplePlatform_def)

lemma sample_search:
  "snd (search samplePlatform sampleStore [] None None) =
     Inr \<lparr>data = map (formatRecordDates era) [sampleStore ! 1, sampleStore ! 0, sampleStore ! 3],
          total' = 3, page = 1, limit = 10\<rparr>"
  "snd (search samplePlatform sampleStore [] (Some 2) (Some 2)) =
     Inr \<lparr>data = map (formatRecordDates era) [sampleStore ! 3],
          total' = 3, page = 2, limit = 2\<rparr>"
proof -
  have t: "trim [] = []" by (simp add: trim_def)
  from search_blank[OF t, of None None samplePlatform sampleStore]
  show "snd (search samplePlatform sampleStore [] None None) =
     Inr \<lparr>data = map (formatRecordDates era) [sampleStore ! 1, sampleStore ! 0, sampleStore ! 3],
          total' = 3, page = 1, limit = 10\<rparr>"
    by (auto simp add: orDefault_def sample_platform sample_live formatBusinessInfoArrayDates_def)
  from search_blank[OF t, of "Some 2" "Some 2" samplePlatform sampleStore]
  show "snd (search samplePlatform sampleStore [] (Some 2) (Some 2)) =
     Inr \<lparr>data = map (formatRecordDates era) [sampleStore ! 3],
          total' = 3, page = 2, limit = 2\<rparr>"
    by (auto simp add: orDefault_def sample_platform sample_live formatBusinessInfoArrayDates_def)
qed

lemma sample_range:
  "snd (searchByDateRange samplePlatform sampleStore (js ''2024-01-01'') (js ''2024/01/31'') None None) =
     Inr \<lparr>data = map (formatRecordDates era) [sampleStore ! 3, sampleStore ! 1, sampleStore ! 0],
          total' = 3, page = 1, limit = 10\<rparr>"
  "snd (searchByDateRange samplePlatform sampleStore (js ''2024-01-01'') (js ''2024/01/31'') (Some 2) (Some 2)) =
     Inr \<lparr>data = map (formatRecordDates era) [sampleStore ! 0],
          total' = 3, page = 2, limit = 2\<rparr>"
proof -
  from range_page[OF sample_dates(1,2,5,6), of None None sampleStore]
  show "snd (searchByDateRange samplePlatform sampleStore (js ''2024-01-01'') (js ''2024/01/31'') None None) =
     Inr \<lparr>data = map (formatRecordDates era) [sampleStore ! 3, sampleStore ! 1, sampleStore ! 0],
          total' = 3, page = 1, limit = 10\<rparr>"
    by (auto simp add: orDefault_def sample_platform sample_january formatBusinessInfoArrayDates_def)
  from range_page[OF sample_dates(1,2,5,6), of "Some 2" "Some 2" sampleStore]
  show "snd (searchByDateRange samplePlatform sampleStore (js ''2024-01-01'') (js ''2024/01/31'') (Some 2) (Some 2)) =
     Inr \<lparr>data = map (formatRecordDates era) [sampleStore ! 0],
          total' = 3, page = 2, limit = 2\<rparr>"
    by (auto simp add: orDefault_def sample_platform sample_january formatBusinessInfoArrayDates_def)
qed

section \<open>The claims\<close>

text \<open>
  C1. For every keyword, \<open>search\<close> issues one query whose filter is the not-deleted
  condition ANDed with a single bracketed group. The group holds exactly 15 OR clauses, one
  per field of \<open>validFields\<close>, each a \<open>LIKE\<close> match of \<open>%trimmedKeyword%\<close> against that
  field; and exactly when the trimmed keyword matches \<open>datePattern\<close>, two more OR clauses
  follow, comparing the date-only part of \<open>createdAt\<close> and of \<open>updatedAt\<close> with the parsed
  keyword. A row is selected iff it is not deleted and one of the clauses holds of it.
\<close>

theorem search_filter_shape:
  "\<exists>q. fst (search p store keyword pageArg limitArg) = [q] \<and>
       wheres q =
         [(SimpleWhere, IsDeletedFalse),
          (AndWhere, Brackets
             (map (\<lambda>field. (OrWhere, Like field (js ''%'' @ trim keyword @ js ''%''))) validFields @
              (if regex_test datePattern (trim keyword)
               then [(OrWhere, DateEquals ''createdAt'' (new_Date (dateHeuristics p) (trim keyword))),
                     (OrWhere, DateEquals ''updatedAt'' (new_Date (dateHeuristics p) (trim keyword)))]
               else [])))] \<and>
       length validFields = 15 \<and> distinct validFields \<and>
       (\<forall>r. selected p q r \<longleftrightarrow>
          \<not> isDeleted r \<and>
          ((\<exists>field\<in>set validFields. holds p r (Like field (js ''%'' @ trim keyword @ js ''%''))) \<or>
           (regex_test datePattern (trim keyword) \<and>
            (holds p r (DateEquals ''createdAt'' (new_Date (dateHeuristics p) (trim keyword))) \<or>
             holds p r (DateEquals ''updatedAt'' (new_Date (dateHeuristics p) (trim keyword)))))))"
proof -
  obtain q where q: "fst (search p store keyword pageArg limitArg) = [q]"
    and w: "wheres q =
         [(SimpleWhere, IsDeletedFalse),
          (AndWhere, Brackets
             (map (\<lambda>field. (OrWhere, Like field (js ''%'' @ trim keyword @ js ''%''))) validFields @
              (if regex_test datePattern (trim keyword)
               then [(OrWhere, DateEquals ''createdAt'' (new_Date (dateHeuristics p) (trim keyword))),
                     (OrWhere, DateEquals ''updatedAt'' (new_Date (dateHeuristics p) (trim keyword)))]
               else [])))]"
    using search_run[of p store keyword pageArg limitArg] by auto
  have "length validFields = 15" "distinct validFields"
    by (simp_all add: validFields_def)
  with q w selected_search[OF w, of p] show ?thesis by blast
qed

theorem search_filter_shape_witness:
  "\<exists>q. fst (search samplePlatform sampleStore (js '' 2024-01-15 '') None None) = [q] \<and>
       wheres q =
         [(SimpleWhere, IsDeletedFalse),
          (AndWhere, Brackets
             (map (\<lambda>field. (OrWhere, Like field (js ''%2024-01-15%''))) validFields @
              [(OrWhere, DateEquals ''createdAt'' (Date (Some 1705276800000))),
               (OrWhere, DateEquals ''updatedAt'' (Date (Some 1705276800000)))]))] \<and>
       selected samplePlatform q (sampleStore ! 1) \<and> \<not> selected samplePlatform q (sampleStore ! 0)"
proof -
  have t: "trim (js '' 2024-01-15 '') = js ''2024-01-15''"
    by (simp add: trim_def js_def isWhiteSpace_def)
  have d: "regex_test datePattern (js ''2024-01-15'')"
    by (simp add: js_def regex_test_def datePattern_def)
  have n: "new_Date (dateHeuristics samplePlatform) (js ''2024-01-15'') = Date (Some 1705276800000)"
    by (simp add: sample_eval)
  have l: "\<not> (\<exists>field\<in>set validFields. holds samplePlatform (sampleStore ! 0) (Like field (js ''%2024-01-15%'')))"
    by (simp add: validFields_def sampleStore_def sampleRecord_def textColumns_def samplePlatform_def
        era_def js_def)
  from search_filter_shape[of samplePlatform sampleStore "js '' 2024-01-15 ''" None None]
  obtain q where q: "fst (search samplePlatform sampleStore (js '' 2024-01-15 '') None None) = [q]"
    "wheres q =
         [(SimpleWhere, IsDeletedFalse),
          (AndWhere, Brackets
             (map (\<lambda>field. (OrWhere, Like field (js ''%2024-01-15%''))) validFields @
              [(OrWhere, DateEquals ''createdAt'' (Date (Some 1705276800000))),
               (OrWhere, DateEquals ''updatedAt'' (Date (Some 1705276800000)))]))]"
    "\<forall>r. selected samplePlatform q r \<longleftrightarrow>
          \<not> isDeleted r \<and>
          ((\<exists>field\<in>set validFields. holds samplePlatform r (Like field (js ''%2024-01-15%''))) \<or>
            (holds samplePlatform r (DateEquals ''createdAt'' (Date (Some 1705276800000))) \<or>
             holds samplePlatform r (DateEquals ''updatedAt'' (Date (Some 1705276800000)))))"
    unfolding t n using d by (auto simp add: js_def)
  have "selected samplePlatform q (sampleStore ! 1)"
    unfolding q(3)[rule_format]
    by (simp add: sampleStore_def sampleRecord_def timeColumns_def samplePlatform_def msPerDay_def)
  moreover have "\<not> selected samplePlatform q (sampleStore ! 0)"
    unfolding q(3)[rule_format] using l
    by (simp add: sampleStore_def sampleRecord_def timeColumns_def samplePlatform_def msPerDay_def)
  ultimately show ?thesis using q(1,2) by blast
qed

text \<open>
  C2. \<open>searchByDateRange\<close> fails with the validation error carrying the message
  \<open>dateFormatMessage\<close> if and only if \<open>startDate\<close> or \<open>endDate\<close> fails \<open>datePattern\<close>.
  Whenever it fails with a validation error, the message is that one and no query has been
  issued. The validation looks at the shape only: month 13 passes it.
\<close>

theorem searchByDateRange_validation:
  "(snd (searchByDateRange p store startDate endDate pageArg limitArg) =
      Inl (BadRequestException dateFormatMessage)
    \<longleftrightarrow> \<not> regex_test datePattern startDate \<or> \<not> regex_test datePattern endDate) \<and>
   (\<forall>m. snd (searchByDateRange p store startDate endDate pageArg limitArg) =
          Inl (BadRequestException m)
        \<longrightarrow> m = dateFormatMessage \<and>
            fst (searchByDateRange p store startDate endDate pageArg limitArg) = []) \<and>
   validateDateRange (js ''2024-13-01'') (js ''2024-01-31'') = Inr ()"
proof -
  let ?run = "searchByDateRange p store startDate endDate pageArg limitArg"
  have bad: "?run = ([], Inl (BadRequestException dateFormatMessage))"
    if "\<not> regex_test datePattern startDate \<or> \<not> regex_test datePattern endDate"
    using that by (rule range_invalid)
  have good: "snd ?run \<noteq> Inl (BadRequestException m)"
    if "regex_test datePattern startDate" "regex_test datePattern endDate" for m
    using range_outcome[OF that, of p store pageArg limitArg] by auto
  have "snd ?run = Inl (BadRequestException dateFormatMessage)
          \<longleftrightarrow> \<not> regex_test datePattern startDate \<or> \<not> regex_test datePattern endDate"
    using bad good by auto
  moreover have "m = dateFormatMessage \<and> fst ?run = []" if "snd ?run = Inl (BadRequestException m)" for m
    using bad good that by (cases "regex_test datePattern startDate \<and> regex_test datePattern endDate") auto
  moreover have "validateDateRange (js ''2024-13-01'') (js ''2024-01-31'') = Inr ()"
    by (simp add: validateDateRange_def regex_test_def datePattern_def js_def)
  ultimately show ?thesis by blast
qed

theorem searchByDateRange_validation_witness:
  "searchByDateRange samplePlatform sampleStore (js ''2024.01.01'') (js ''2024-01-31'') None None =
     ([], Inl (BadRequestException dateFormatMessage)) \<and>
   snd (searchByDateRange samplePlatform sampleStore (js ''2024-01-01'') (js ''2024/01/31'') None None) \<noteq>
     Inl (BadRequestException dateFormatMessage)"
proof -
  have a: "\<not> regex_test datePattern (js ''2024.01.01'')"
    by (simp add: regex_test_def datePattern_def js_def)
  have b: "regex_test datePattern (js ''2024-01-01'')" "regex_test datePattern (js ''2024/01/31'')"
    by (simp_all add: regex_test_def datePattern_def js_def)
  from a searchByDateRange_validation[of samplePlatform sampleStore "js ''2024.01.01''" "js ''2024-01-31''" None None]
  have "searchByDateRange samplePlatform sampleStore (js ''2024.01.01'') (js ''2024-01-31'') None None =
     ([], Inl (BadRequestException dateFormatMessage))"
    by (metis prod.collapse)
  moreover from b searchByDateRange_validation[of samplePlatform sampleStore "js ''2024-01-01''" "js ''2024/01/31''" None None]
  have "snd (searchByDateRange samplePlatform sampleStore (js ''2024-01-01'') (js ''2024/01/31'') None None) \<noteq>
     Inl (BadRequestException dateFormatMessage)"
    by blast
  ultimately show ?thesis by blast
qed

text \<open>
  C3. Whatever the keyword, the dates, the page and the limit: every record in the \<open>data\<close>
  of a result of \<open>search\<close> or of \<open>searchByDateRange\<close> has \<open>isDeleted = false\<close>; it is the
  formatted copy of a row of the table that is not deleted.
\<close>

theorem deleted_never_returned:
  "(\<forall>r. snd (search p store keyword pageArg limitArg) = Inr r \<longrightarrow>
      (\<forall>x\<in>set (data r). \<not> isDeleted x \<and>
         (\<exists>y\<in>set store. \<not> isDeleted y \<and> x = formatRecordDates (displayDate p) y))) \<and>
   (\<forall>r. snd (searchByDateRange p store startDate endDate pageArg limitArg) = Inr r \<longrightarrow>
      (\<forall>x\<in>set (data r). \<not> isDeleted x \<and>
         (\<exists>y\<in>set store. \<not> isDeleted y \<and> x = formatRecordDates (displayDate p) y)))"
proof -
  have page_ok: "\<forall>x\<in>set (formatBusinessInfoArrayDates (displayDate p) rows). \<not> isDeleted x \<and>
         (\<exists>y\<in>set store. \<not> isDeleted y \<and> x = formatRecordDates (displayDate p) y)"
    if got: "getManyAndCount p store q = Inr (rows, n)"
      and live: "\<And>y. selected p q y \<Longrightarrow> \<not> isDeleted y" for q rows n
  proof
    fix x assume "x \<in> set (formatBusinessInfoArrayDates (displayDate p) rows)"
    then obtain y where y: "y \<in> set rows" "x = formatRecordDates (displayDate p) y"
      by (auto simp: formatBusinessInfoArrayDates_def)
    with getManyAndCount_Inr(1)[OF got] have "y \<in> set store" "selected p q y" by auto
    with live y show "\<not> isDeleted x \<and>
         (\<exists>y\<in>set store. \<not> isDeleted y \<and> x = formatRecordDates (displayDate p) y)"
      by (auto simp: formatted_fields)
  qed
  have "\<forall>x\<in>set (data r). \<not> isDeleted x \<and>
         (\<exists>y\<in>set store. \<not> isDeleted y \<and> x = formatRecordDates (displayDate p) y)"
    if "snd (search p store keyword pageArg limitArg) = Inr r" for r
  proof -
    from search_returns[OF that] obtain q rows n where
      got: "getManyAndCount p store q = Inr (rows, n)"
      and r: "r = \<lparr>data = formatBusinessInfoArrayDates (displayDate p) rows, total' = n,
             page = orDefault 1 pageArg, limit = orDefault 10 limitArg\<rparr>"
      and w: "wheres q =
         [(SimpleWhere, IsDeletedFalse),
          (AndWhere, Brackets
             (map (\<lambda>field. (OrWhere, Like field (js ''%'' @ trim keyword @ js ''%''))) validFields @
              (if regex_test datePattern (trim keyword)
               then [(OrWhere, DateEquals ''createdAt'' (new_Date (dateHeuristics p) (trim keyword))),
                     (OrWhere, DateEquals ''updatedAt'' (new_Date (dateHeuristics p) (trim keyword)))]
               else [])))]"
      by blast
    have "\<not> isDeleted y" if "selected p q y" for y
      using that unfolding selected_search[OF w] by blast
    from page_ok[OF got this] show ?thesis by (simp add: r)
  qed
  moreover have "\<forall>x\<in>set (data r). \<not> isDeleted x \<and>
         (\<exists>y\<in>set store. \<not> isDeleted y \<and> x = formatRecordDates (displayDate p) y)"
    if "snd (searchByDateRange p store startDate endDate pageArg limitArg) = Inr r" for r
  proof -
    from range_returns[OF that] obtain a b q rows n where
      got: "getManyAndCount p store q = Inr (rows, n)"
      and r: "r = \<lparr>data = formatBusinessInfoArrayDates (displayDate p) rows, total' = n,
             page = orDefault 1 pageArg, limit = orDefault 10 limitArg\<rparr>"
      and w: "wheres q =
         [(SimpleWhere, IsDeletedFalse),
          (AndWhere, GreaterEq ''createdAt'' (ISOString a)),
          (AndWhere, LessEq ''createdAt'' (ISOString b))]"
      by blast
    have "\<not> isDeleted y" if "selected p q y" for y
      using that unfolding selected_range[OF w] by blast
    from page_ok[OF got this] show ?thesis by (simp add: r)
  qed
  ultimately show ?thesis by blast
qed

theorem deleted_never_returned_witness:
  "map isDeleted sampleStore = [False, False, True, False] \<and>
   (\<exists>r. snd (search samplePlatform sampleStore [] None None) = Inr r \<and>
        map isDeleted (data r) = [False, False, False]) \<and>
   (\<exists>r. snd (searchByDateRange samplePlatform sampleStore (js ''2024-01-01'') (js ''2024/01/31'') None None) = Inr r \<and>
        map isDeleted (data r) = [False, False, False])"
proof -
  note inst = deleted_never_returned[of samplePlatform sampleStore "[]" None None
      "js ''2024-01-01''" "js ''2024/01/31''"]
  let ?a = "\<lparr>data = map (formatRecordDates era) [sampleStore ! 1, sampleStore ! 0, sampleStore ! 3],
          total' = 3, page = 1, limit = 10\<rparr>"
  let ?b = "\<lparr>data = map (formatRecordDates era) [sampleStore ! 3, sampleStore ! 1, sampleStore ! 0],
          total' = 3, page = 1, limit = 10\<rparr>"
  have store: "map isDeleted sampleStore = [False, False, True, False]"
    by (simp add: sampleStore_def sampleRecord_def)
  have "\<not> isDeleted x" if "x \<in> set (data ?a)" for x
    using inst[THEN conjunct1, rule_format, OF sample_search(1) that] by (rule conjunct1)
  then have a: "map isDeleted (data ?a) = [False, False, False]"
    by simp
  have "\<not> isDeleted x" if "x \<in> set (data ?b)" for x
    using inst[THEN conjunct2, rule_format, OF sample_range(1) that] by (rule conjunct1)
  then have b: "map isDeleted (data ?b) = [False, False, False]"
    by simp
  show ?thesis
  proof (intro conjI exI)
    show "map isDeleted sampleStore = [False, False, True, False]" by (rule store)
    show "snd (search samplePlatform sampleStore [] None None) = Inr ?a" by (rule sample_search(1))
    show "map isDeleted (data ?a) = [False, False, False]" by (rule a)
    show "snd (searchByDateRange samplePlatform sampleStore (js ''2024-01-01'') (js ''2024/01/31'') None None) = Inr ?b"
      by (rule sample_range(1))
    show "map isDeleted (data ?b) = [False, False, False]" by (rule b)
  qed
qed

text \<open>
  C4. For \<open>page \<ge> 1\<close> and \<open>limit \<ge> 1\<close> (an omitted page is 1, an omitted limit 10),
  \<open>search\<close> returns a result whose \<open>data\<close> is the ordered selection with
  \<open>(page - 1) * limit\<close> rows skipped and at most \<open>limit\<close> rows taken, whose \<open>total\<close> is
  the number of selected rows regardless of the page, and which echoes \<open>page\<close> and \<open>limit\<close>.
  So does \<open>searchByDateRange\<close>, on dates that pass validation and parse.
\<close>

theorem pagination:
  assumes "pg = orDefault 1 pageArg" "lim = orDefault 10 limitArg" "1 \<le> pg" "1 \<le> lim"
  shows "(\<exists>q r. search p store keyword pageArg limitArg = ([q], Inr r) \<and>
            data r = formatBusinessInfoArrayDates (displayDate p)
              (take (nat lim) (drop (nat ((pg - 1) * lim)) (ordered p q (filter (selected p q) store)))) \<and>
            int (length (data r)) \<le> lim \<and>
            total' r = int (length (filter (selected p q) store)) \<and>
            page r = pg \<and> limit r = lim) \<and>
         (regex_test datePattern startDate \<and> regex_test datePattern endDate \<and>
          new_Date (dateHeuristics p) startDate \<noteq> Date None \<and>
          new_Date (dateHeuristics p) endDate \<noteq> Date None \<longrightarrow>
          (\<exists>q r. searchByDateRange p store startDate endDate pageArg limitArg = ([q], Inr r) \<and>
            data r = formatBusinessInfoArrayDates (displayDate p)
              (take (nat lim) (drop (nat ((pg - 1) * lim)) (ordered p q (filter (selected p q) store)))) \<and>
            int (length (data r)) \<le> lim \<and>
            total' r = int (length (filter (selected p q) store)) \<and>
            page r = pg \<and> limit r = lim)) \<and>
         orDefault 1 None = 1 \<and> orDefault 10 None = 10 \<and>
         orDefault 1 (Some pg) = pg \<and> orDefault 10 (Some lim) = lim"
proof -
  have off: "0 \<le> (pg - 1) * lim" using assms by simp
  have lim0: "0 \<le> lim" using assms by simp
  have len: "int (length (formatBusinessInfoArrayDates (displayDate p) (take (nat lim) xs))) \<le> lim" for xs
    using lim0 by (simp add: formatBusinessInfoArrayDates_def)
  have one: "\<exists>r. run = ([q], Inr r) \<and>
            data r = formatBusinessInfoArrayDates (displayDate p)
              (take (nat lim) (drop (nat ((pg - 1) * lim)) (ordered p q (filter (selected p q) store)))) \<and>
            int (length (data r)) \<le> lim \<and>
            total' r = int (length (filter (selected p q) store)) \<and>
            page r = pg \<and> limit r = lim"
    if run: "run = ([q], case getManyAndCount p store q of
                 Inl e \<Rightarrow> Inl e
               | Inr (rows, n) \<Rightarrow>
                   Inr \<lparr>data = formatBusinessInfoArrayDates (displayDate p) rows, total' = n,
                        page = orDefault 1 pageArg, limit = orDefault 10 limitArg\<rparr>)"
      and s: "skipped q = Some ((orDefault 1 pageArg - 1) * orDefault 10 limitArg)"
      and t: "taken q = Some (orDefault 10 limitArg)" for run q
  proof -
    have "getManyAndCount p store q =
           Inr (take (nat lim) (drop (nat ((pg - 1) * lim)) (ordered p q (filter (selected p q) store))),
                int (length (filter (selected p q) store)))"
      using s t off lim0 assms(1,2) by (intro getManyAndCount_page) simp_all
    with run assms(1,2) len show ?thesis by simp
  qed
  have "\<exists>q r. search p store keyword pageArg limitArg = ([q], Inr r) \<and>
            data r = formatBusinessInfoArrayDates (displayDate p)
              (take (nat lim) (drop (nat ((pg - 1) * lim)) (ordered p q (filter (selected p q) store)))) \<and>
            int (length (data r)) \<le> lim \<and>
            total' r = int (length (filter (selected p q) store)) \<and>
            page r = pg \<and> limit r = lim"
    using search_run[of p store keyword pageArg limitArg] one by blast
  moreover have "\<exists>q r. searchByDateRange p store startDate endDate pageArg limitArg = ([q], Inr r) \<and>
            data r = formatBusinessInfoArrayDates (displayDate p)
              (take (nat lim) (drop (nat ((pg - 1) * lim)) (ordered p q (filter (selected p q) store)))) \<and>
            int (length (data r)) \<le> lim \<and>
            total' r = int (length (filter (selected p q) store)) \<and>
            page r = pg \<and> limit r = lim"
    if v: "regex_test datePattern startDate" "regex_test datePattern endDate"
      and ps: "new_Date (dateHeuristics p) startDate \<noteq> Date None"
      and pe: "new_Date (dateHeuristics p) endDate \<noteq> Date None"
  proof -
    from ps obtain a where a: "new_Date (dateHeuristics p) startDate = Date (Some a)"
      by (cases "new_Date (dateHeuristics p) startDate") auto
    from pe obtain b where b: "new_Date (dateHeuristics p) endDate = Date (Some b)"
      by (cases "new_Date (dateHeuristics p) endDate") auto
    from range_run[OF v a b, of store pageArg limitArg] one show ?thesis by blast
  qed
  moreover have "orDefault 1 None = 1 \<and> orDefault 10 None = 10 \<and>
         orDefault 1 (Some pg) = pg \<and> orDefault 10 (Some lim) = lim"
    by (simp add: orDefault_def)
  ultimately show ?thesis by blast
qed

theorem pagination_witness:
  "(2::int) = orDefault 1 (Some 2) \<and> (2::int) = orDefault 10 (Some 2) \<and> (1::int) \<le> 2 \<and>
   (\<exists>q r. search samplePlatform sampleStore [] (Some 2) (Some 2) = ([q], Inr r) \<and>
      map businessName (data r) = [js ''Dune''] \<and>
      int (length (data r)) \<le> 2 \<and> total' r = 3 \<and> page r = 2 \<and> limit r = 2) \<and>
   (\<exists>q r. searchByDateRange samplePlatform sampleStore (js ''2024-01-01'') (js ''2024/01/31'') (Some 2) (Some 2) = ([q], Inr r) \<and>
      map businessName (data r) = [js ''Cafe''] \<and>
      int (length (data r)) \<le> 2 \<and> total' r = 3 \<and> page r = 2 \<and> limit r = 2)"
proof -
  have pg: "(2::int) = orDefault 1 (Some 2)" "(2::int) = orDefault 10 (Some 2)" "(1::int) \<le> 2"
    by (simp_all add: orDefault_def)
  note inst = pagination[OF pg(1,2,3,3), of samplePlatform sampleStore "[]"
      "js ''2024-01-01''" "js ''2024/01/31''"]
  have parsed: "regex_test datePattern (js ''2024-01-01'') \<and> regex_test datePattern (js ''2024/01/31'') \<and>
          new_Date (dateHeuristics samplePlatform) (js ''2024-01-01'') \<noteq> Date None \<and>
          new_Date (dateHeuristics samplePlatform) (js ''2024/01/31'') \<noteq> Date None"
    by (simp add: sample_dates)
  from inst[THEN conjunct1] obtain q r where
    a: "search samplePlatform sampleStore [] (Some 2) (Some 2) = ([q], Inr r)"
    and a': "int (length (data r)) \<le> 2" "page r = 2" "limit r = 2"
    by (elim exE conjE)
  from a sample_search(2) have r: "r = \<lparr>data = map (formatRecordDates era) [sampleStore ! 3],
          total' = 3, page = 2, limit = 2\<rparr>"
    by simp
  have ra: "map businessName (data r) = [js ''Dune'']" "total' r = 3"
    unfolding r by (simp_all add: formatted_fields sampleStore_def sampleRecord_def)
  from inst[THEN conjunct2, THEN conjunct1, rule_format, OF parsed] obtain q' r' where
    b: "searchByDateRange samplePlatform sampleStore (js ''2024-01-01'') (js ''2024/01/31'') (Some 2) (Some 2) = ([q'], Inr r')"
    and b': "int (length (data r')) \<le> 2" "page r' = 2" "limit r' = 2"
    by (elim exE conjE)
  from b sample_range(2) have r': "r' = \<lparr>data = map (formatRecordDates era) [sampleStore ! 0],
          total' = 3, page = 2, limit = 2\<rparr>"
    by simp
  have rb: "map businessName (data r') = [js ''Cafe'']" "total' r' = 3"
    unfolding r' by (simp_all add: formatted_fields sampleStore_def sampleRecord_def)
  show ?thesis
  proof (intro conjI exI)
    show "(2::int) = orDefault 1 (Some 2)" "(2::int) = orDefault 10 (Some 2)" "(1::int) \<le> 2"
      by (rule pg)+
    show "search samplePlatform sampleStore [] (Some 2) (Some 2) = ([q], Inr r)" by (rule a)
    show "map businessName (data r) = [js ''Dune'']" "total' r = 3" by (rule ra)+
    show "int (length (data r)) \<le> 2" "page r = 2" "limit r = 2" by (rule a')+
    show "searchByDateRange samplePlatform sampleStore (js ''2024-01-01'') (js ''2024/01/31'') (Some 2) (Some 2) = ([q'], Inr r')"
      by (rule b)
    show "map businessName (data r') = [js ''Cafe'']" "total' r' = 3" by (rule rb)+
    show "int (length (data r')) \<le> 2" "page r' = 2" "limit r' = 2" by (rule b')+
  qed
qed

text \<open>
  C5. The \<open>data\<close> of a result of \<open>search\<close> is in ascending order of \<open>businessName\<close> under
  the collation of the store. The \<open>data\<close> of a result of \<open>searchByDateRange\<close> is the
  formatted copy of the rows the store answered with, and these are in descending order of
  \<open>createdAt\<close>.
\<close>

theorem result_ordering:
  "(\<forall>r. snd (search p store keyword pageArg limitArg) = Inr r \<longrightarrow>
      sorted (map (\<lambda>x. collation p (businessName x)) (data r))) \<and>
   (\<forall>r. snd (searchByDateRange p store startDate endDate pageArg limitArg) = Inr r \<longrightarrow>
      (\<exists>q rows n. fst (searchByDateRange p store startDate endDate pageArg limitArg) = [q] \<and>
         getManyAndCount p store q = Inr (rows, n) \<and>
         data r = formatBusinessInfoArrayDates (displayDate p) rows \<and>
         sorted_wrt (\<lambda>x y. createdAt y \<le> createdAt x) rows))"
proof -
  have "sorted (map (\<lambda>x. collation p (businessName x)) (data r))"
    if "snd (search p store keyword pageArg limitArg) = Inr r" for r
  proof -
    from search_returns[OF that] obtain q rows n where
      got: "getManyAndCount p store q = Inr (rows, n)"
      and r: "r = \<lparr>data = formatBusinessInfoArrayDates (displayDate p) rows, total' = n,
             page = orDefault 1 pageArg, limit = orDefault 10 limitArg\<rparr>"
      and o: "orderBys q = [(''businessName'', ASC)]"
      by blast
    have "sorted_wrt (\<lambda>x y. collation p (businessName x) \<le> collation p (businessName y))
            (ordered p q (filter (selected p q) store))"
      using ordered_by_name[OF o, of p] by (simp add: sorted_map)
    from getManyAndCount_sorted[OF got this]
    have "sorted (map (\<lambda>x. collation p (businessName x)) rows)"
      by (simp add: sorted_map)
    moreover have "map (\<lambda>x. collation p (businessName x)) (data r) =
        map (\<lambda>x. collation p (businessName x)) rows"
      by (simp add: r formatBusinessInfoArrayDates_def formatted_fields comp_def)
    ultimately show ?thesis by simp
  qed
  moreover have "\<exists>q rows n. fst (searchByDateRange p store startDate endDate pageArg limitArg) = [q] \<and>
         getManyAndCount p store q = Inr (rows, n) \<and>
         data r = formatBusinessInfoArrayDates (displayDate p) rows \<and>
         sorted_wrt (\<lambda>x y. createdAt y \<le> createdAt x) rows"
    if "snd (searchByDateRange p store startDate endDate pageArg limitArg) = Inr r" for r
  proof -
    from range_returns[OF that] obtain q rows n where
      run: "searchByDateRange p store startDate endDate pageArg limitArg = ([q], Inr r)"
      and got: "getManyAndCount p store q = Inr (rows, n)"
      and r: "r = \<lparr>data = formatBusinessInfoArrayDates (displayDate p) rows, total' = n,
             page = orDefault 1 pageArg, limit = orDefault 10 limitArg\<rparr>"
      and o: "orderBys q = [(''createdAt'', DESC)]"
      by blast
    from getManyAndCount_sorted[OF got ordered_by_createdAt_desc[OF o]]
    have "sorted_wrt (\<lambda>x y. createdAt y \<le> createdAt x) rows" .
    with run got r show ?thesis by simp
  qed
  ultimately show ?thesis by blast
qed

theorem result_ordering_witness:
  "(\<exists>r. snd (search samplePlatform sampleStore [] None None) = Inr r \<and>
        map businessName (data r) = [js ''Acme'', js ''Cafe'', js ''Dune''] \<and>
        sorted (map (\<lambda>x. collation samplePlatform (businessName x)) (data r))) \<and>
   (\<exists>r q rows n.
        snd (searchByDateRange samplePlatform sampleStore (js ''2024-01-01'') (js ''2024/01/31'') None None) = Inr r \<and>
        fst (searchByDateRange samplePlatform sampleStore (js ''2024-01-01'') (js ''2024/01/31'') None None) = [q] \<and>
        getManyAndCount samplePlatform sampleStore q = Inr (rows, n) \<and>
        data r = formatBusinessInfoArrayDates (displayDate samplePlatform) rows \<and>
        length rows = 3 \<and>
        sorted_wrt (\<lambda>x y. createdAt y \<le> createdAt x) rows)"
proof -
  note inst = result_ordering[of samplePlatform sampleStore "[]" None None
      "js ''2024-01-01''" "js ''2024/01/31''"]
  let ?a = "\<lparr>data = map (formatRecordDates era) [sampleStore ! 1, sampleStore ! 0, sampleStore ! 3],
          total' = 3, page = 1, limit = 10\<rparr>"
  let ?b = "\<lparr>data = map (formatRecordDates era) [sampleStore ! 3, sampleStore ! 1, sampleStore ! 0],
          total' = 3, page = 1, limit = 10\<rparr>"
  have names: "map businessName (data ?a) = [js ''Acme'', js ''Cafe'', js ''Dune'']"
    by (simp add: formatted_fields sampleStore_def sampleRecord_def)
  have sorted_a: "sorted (map (\<lambda>x. collation samplePlatform (businessName x)) (data ?a))"
    by (rule inst[THEN conjunct1, rule_format, OF sample_search(1)])
  from inst[THEN conjunct2, rule_format, OF sample_range(1)] obtain q rows n where
      q: "fst (searchByDateRange samplePlatform sampleStore (js ''2024-01-01'') (js ''2024/01/31'') None None) = [q]"
      and got: "getManyAndCount samplePlatform sampleStore q = Inr (rows, n)"
      and d: "data ?b = formatBusinessInfoArrayDates (displayDate samplePlatform) rows"
      and s: "sorted_wrt (\<lambda>x y. createdAt y \<le> createdAt x) rows"
    by (elim exE conjE)
  have "length (data ?b) = length rows"
    unfolding d by (simp add: formatBusinessInfoArrayDates_def)
  then have len: "length rows = 3" by simp
  show ?thesis
  proof (intro conjI exI)
    show "snd (search samplePlatform sampleStore [] None None) = Inr ?a" by (rule sample_search(1))
    show "map businessName (data ?a) = [js ''Acme'', js ''Cafe'', js ''Dune'']" by (rule names)
    show "sorted (map (\<lambda>x. collation samplePlatform (businessName x)) (data ?a))" by (rule sorted_a)
    show "snd (searchByDateRange samplePlatform sampleStore (js ''2024-01-01'') (js ''2024/01/31'') None None) = Inr ?b"
      by (rule sample_range(1))
    show "fst (searchByDateRange samplePlatform sampleStore (js ''2024-01-01'') (js ''2024/01/31'') None None) = [q]"
      by (rule q)
    show "getManyAndCount samplePlatform sampleStore q = Inr (rows, n)" by (rule got)
    show "data ?b = formatBusinessInfoArrayDates (displayDate samplePlatform) rows" by (rule d)
    show "length rows = 3" by (rule len)
    show "sorted_wrt (\<lambda>x y. createdAt y \<le> createdAt x) rows" by (rule s)
  qed
qed

text \<open>
  C6, as amended. For \<open>startDate\<close> and \<open>endDate\<close> that match \<open>datePattern\<close> (mixed separators
  included) and that the platform parses to instants \<open>a\<close> and \<open>b\<close>, and for \<open>page \<ge> 1\<close> and
  \<open>limit \<ge> 1\<close>: both strings are turned into the ISO strings of \<open>a\<close> and \<open>b\<close>, one query is
  issued that compares \<open>createdAt\<close> with them, and the result is the page of the rows that
  are not deleted and have \<open>a \<le> createdAt \<le> b\<close>, newest first and rows of equal
  \<open>createdAt\<close> in the order of the table, with their number as \<open>total\<close>. Pattern-valid
  strings that do not parse are outside this statement.
\<close>

theorem date_range_selection:
  assumes "regex_test datePattern startDate" "regex_test datePattern endDate"
    and "new_Date (dateHeuristics p) startDate = Date (Some a)"
    and "new_Date (dateHeuristics p) endDate = Date (Some b)"
    and "pg = orDefault 1 pageArg" "lim = orDefault 10 limitArg" "1 \<le> pg" "1 \<le> lim"
  shows "\<exists>q. searchByDateRange p store startDate endDate pageArg limitArg =
           ([q], Inr \<lparr>data = formatBusinessInfoArrayDates (displayDate p)
                          (take (nat lim) (drop (nat ((pg - 1) * lim))
                            (rev (sort_key createdAt
                              (rev (filter (\<lambda>r. \<not> isDeleted r \<and> a \<le> createdAt r \<and> createdAt r \<le> b) store)))))),
                       total' = int (length
                          (filter (\<lambda>r. \<not> isDeleted r \<and> a \<le> createdAt r \<and> createdAt r \<le> b) store)),
                       page = pg, limit = lim\<rparr>) \<and>
         wheres q =
           [(SimpleWhere, IsDeletedFalse),
            (AndWhere, GreaterEq ''createdAt'' (ISOString a)),
            (AndWhere, LessEq ''createdAt'' (ISOString b))] \<and>
         toISOString (new_Date (dateHeuristics p) startDate) = Inr (ISOString a) \<and>
         toISOString (new_Date (dateHeuristics p) endDate) = Inr (ISOString b)"
proof -
  have pg: "1 \<le> orDefault 1 pageArg" "1 \<le> orDefault 10 limitArg"
    using assms(5-8) by simp_all
  from range_page[OF assms(1-4) pg, of store] obtain q where
    "searchByDateRange p store startDate endDate pageArg limitArg =
           ([q], Inr \<lparr>data = formatBusinessInfoArrayDates (displayDate p)
                          (take (nat lim) (drop (nat ((pg - 1) * lim))
                            (rev (sort_key createdAt
                              (rev (filter (\<lambda>r. \<not> isDeleted r \<and> a \<le> createdAt r \<and> createdAt r \<le> b) store)))))),
                       total' = int (length
                          (filter (\<lambda>r. \<not> isDeleted r \<and> a \<le> createdAt r \<and> createdAt r \<le> b) store)),
                       page = pg, limit = lim\<rparr>)"
    and "wheres q =
           [(SimpleWhere, IsDeletedFalse),
            (AndWhere, GreaterEq ''createdAt'' (ISOString a)),
            (AndWhere, LessEq ''createdAt'' (ISOString b))]"
    unfolding assms(5,6) by blast
  moreover have "toISOString (new_Date (dateHeuristics p) startDate) = Inr (ISOString a)"
    "toISOString (new_Date (dateHeuristics p) endDate) = Inr (ISOString b)"
    by (simp_all add: assms(3,4))
  ultimately show ?thesis by blast
qed

theorem date_range_selection_witness:
  "regex_test datePattern (js ''2024-01-01'') \<and> regex_test datePattern (js ''2024/01/31'') \<and>
   new_Date (dateHeuristics samplePlatform) (js ''2024-01-01'') = Date (Some 1704067200000) \<and>
   new_Date (dateHeuristics samplePlatform) (js ''2024/01/31'') = Date (Some 1706659200000) \<and>
   (\<exists>q. searchByDateRange samplePlatform sampleStore (js ''2024-01-01'') (js ''2024/01/31'') None None =
      ([q], Inr \<lparr>data = map (formatRecordDates era) [sampleStore ! 3, sampleStore ! 1, sampleStore ! 0],
                  total' = 3, page = 1, limit = 10\<rparr>)) \<and>
   (\<exists>q. searchByDateRange samplePlatform tiedStore (js ''2024-01-01'') (js ''2024/01/31'') (Some 1) (Some 2) =
      ([q], Inr \<lparr>data = map (formatRecordDates era) [tiedStore ! 0, tiedStore ! 1],
                  total' = 3, page = 1, limit = 2\<rparr>))"
proof -
  have d: "displayDate samplePlatform = era" by (simp add: samplePlatform_def)
  have pg: "(1::int) = orDefault 1 None" "(10::int) = orDefault 10 None"
    by (simp_all add: orDefault_def)
  have pg': "(1::int) = orDefault 1 (Some 1)" "(2::int) = orDefault 10 (Some 2)"
    by (simp_all add: orDefault_def)
  from date_range_selection[OF sample_dates(1,2,5,6) pg, of sampleStore]
  have "\<exists>q. searchByDateRange samplePlatform sampleStore (js ''2024-01-01'') (js ''2024/01/31'') None None =
      ([q], Inr \<lparr>data = map (formatRecordDates era) [sampleStore ! 3, sampleStore ! 1, sampleStore ! 0],
                  total' = 3, page = 1, limit = 10\<rparr>)"
    by (simp add: sample_january d formatBusinessInfoArrayDates_def, blast)
  moreover from date_range_selection[OF sample_dates(1,2,5,6) pg', of tiedStore]
  have "\<exists>q. searchByDateRange samplePlatform tiedStore (js ''2024-01-01'') (js ''2024/01/31'') (Some 1) (Some 2) =
      ([q], Inr \<lparr>data = map (formatRecordDates era) [tiedStore ! 0, tiedStore ! 1],
                  total' = 3, page = 1, limit = 2\<rparr>)"
    by (simp add: tied_january d formatBusinessInfoArrayDates_def, blast)
  ultimately show ?thesis using sample_dates(1,2,5,6) by (intro conjI)
qed

text \<open>
  C6 as stated does not hold: \<open>2024-13-01\<close> and \<open>2024-01-31\<close> both match the pattern, but
  month 13 does not parse, \<open>toISOString\<close> raises a RangeError, no query is issued and no
  records are returned.
\<close>

theorem date_range_month_13:
  "regex_test datePattern (js ''2024-13-01'') \<and> regex_test datePattern (js ''2024-01-31'') \<and>
   searchByDateRange samplePlatform sampleStore (js ''2024-13-01'') (js ''2024-01-31'') (Some 1) (Some 10) =
     ([], Inl RangeError)"
  by (simp add: sample_dates range_unparsed)

text \<open>
  C7. \<open>search\<close> never fails with a validation error, nor with a RangeError, whatever the
  keyword, the page and the limit. With a keyword that is empty after trimming (the pattern
  is then \<open>%%\<close>) and \<open>page \<ge> 1\<close>, \<open>limit \<ge> 1\<close>, the result is the page of all rows that are
  not deleted, in order of \<open>businessName\<close>, and \<open>total\<close> is their number.
\<close>

theorem search_accepts_every_keyword:
  "(\<forall>m. snd (search p store keyword pageArg limitArg) \<noteq> Inl (BadRequestException m)) \<and>
   snd (search p store keyword pageArg limitArg) \<noteq> Inl RangeError \<and>
   (trim keyword = [] \<and> 1 \<le> orDefault 1 pageArg \<and> 1 \<le> orDefault 10 limitArg \<longrightarrow>
      (\<exists>q. search p store keyword pageArg limitArg =
         ([q], Inr \<lparr>data = formatBusinessInfoArrayDates (displayDate p)
                        (take (nat (orDefault 10 limitArg))
                          (drop (nat ((orDefault 1 pageArg - 1) * orDefault 10 limitArg))
                            (sort_key (\<lambda>r. collation p (businessName r))
                              (filter (\<lambda>r. \<not> isDeleted r) store)))),
                     total' = int (length (filter (\<lambda>r. \<not> isDeleted r) store)),
                     page = orDefault 1 pageArg, limit = orDefault 10 limitArg\<rparr>)))"
proof -
  have "snd (search p store keyword pageArg limitArg) \<noteq> Inl (BadRequestException m)" for m
    using search_outcome[of p store keyword pageArg limitArg] by auto
  moreover have "snd (search p store keyword pageArg limitArg) \<noteq> Inl RangeError"
    using search_outcome[of p store keyword pageArg limitArg] by auto
  ultimately show ?thesis
    using search_blank[of keyword pageArg limitArg p store] by blast
qed

theorem search_accepts_every_keyword_witness:
  "trim (js '' '') = [] \<and>
   (\<exists>q. search samplePlatform sampleStore (js '' '') None None =
      ([q], Inr \<lparr>data = map (formatRecordDates era) [sampleStore ! 1, sampleStore ! 0, sampleStore ! 3],
                  total' = 3, page = 1, limit = 10\<rparr>))"
proof -
  have t: "trim (js '' '') = []"
    by (simp add: trim_def js_def isWhiteSpace_def)
  have d: "displayDate samplePlatform = era" "collation samplePlatform = (\<lambda>s. s)"
    by (simp_all add: samplePlatform_def)
  have a: "\<exists>q. search samplePlatform sampleStore (js '' '') None None =
      ([q], Inr \<lparr>data = map (formatRecordDates era) [sampleStore ! 1, sampleStore ! 0, sampleStore ! 3],
                  total' = 3, page = 1, limit = 10\<rparr>)"
    using search_accepts_every_keyword[of samplePlatform sampleStore "js '' ''" None None] t
    by (simp add: orDefault_def d sample_live formatBusinessInfoArrayDates_def)
  with t show ?thesis by blast
qed

text \<open>
  C8. The \<open>data\<close> of every result of either operation corresponds, record by record, to
  the rows the store answered with: \<open>createdAt\<close> and \<open>updatedAt\<close> are the display strings of
  the row's timestamps, and every other field is the row's.
\<close>

theorem dates_formatted_uniformly:
  "(\<forall>r. snd (search p store keyword pageArg limitArg) = Inr r \<longrightarrow>
      (\<exists>q rows n. fst (search p store keyword pageArg limitArg) = [q] \<and>
         getManyAndCount p store q = Inr (rows, n) \<and>
         list_all2 (\<lambda>y x.
            createdAt x = displayDate p (createdAt y) \<and>
            updatedAt x = displayDate p (updatedAt y) \<and>
            businessName x = businessName y \<and>
            businessNumber x = businessNumber y \<and>
            businessType x = businessType y \<and>
            businessCeo x = businessCeo y \<and>
            businessItem x = businessItem y \<and>
            corporateRegistrationNumber x = corporateRegistrationNumber y \<and>
            businessTel x = businessTel y \<and>
            businessMobile x = businessMobile y \<and>
            businessCeoEmail x = businessCeoEmail y \<and>
            businessFax x = businessFax y \<and>
            businessZipcode x = businessZipcode y \<and>
            businessAddress x = businessAddress y \<and>
            businessAddressDetail x = businessAddressDetail y \<and>
            isDeleted x = isDeleted y) rows (data r))) \<and>
   (\<forall>r. snd (searchByDateRange p store startDate endDate pageArg limitArg) = Inr r \<longrightarrow>
      (\<exists>q rows n. fst (searchByDateRange p store startDate endDate pageArg limitArg) = [q] \<and>
         getManyAndCount p store q = Inr (rows, n) \<and>
         list_all2 (\<lambda>y x.
            createdAt x = displayDate p (createdAt y) \<and>
            updatedAt x = displayDate p (updatedAt y) \<and>
            businessName x = businessName y \<and>
            businessNumber x = businessNumber y \<and>
            businessType x = businessType y \<and>
            businessCeo x = businessCeo y \<and>
            businessItem x = businessItem y \<and>
            corporateRegistrationNumber x = corporateRegistrationNumber y \<and>
            businessTel x = businessTel y \<and>
            businessMobile x = businessMobile y \<and>
            businessCeoEmail x = businessCeoEmail y \<and>
            businessFax x = businessFax y \<and>
            businessZipcode x = businessZipcode y \<and>
            businessAddress x = businessAddress y \<and>
            businessAddressDetail x = businessAddressDetail y \<and>
            isDeleted x = isDeleted y) rows (data r)))"
proof -
  let ?P = "\<lambda>y x.
            createdAt x = displayDate p (createdAt y) \<and>
            updatedAt x = displayDate p (updatedAt y) \<and>
            businessName x = businessName y \<and>
            businessNumber x = businessNumber y \<and>
            businessType x = businessType y \<and>
            businessCeo x = businessCeo y \<and>
            businessItem x = businessItem y \<and>
            corporateRegistrationNumber x = corporateRegistrationNumber y \<and>
            businessTel x = businessTel y \<and>
            businessMobile x = businessMobile y \<and>
            businessCeoEmail x = businessCeoEmail y \<and>
            businessFax x = businessFax y \<and>
            businessZipcode x = businessZipcode y \<and>
            businessAddress x = businessAddress y \<and>
            businessAddressDetail x = businessAddressDetail y \<and>
            isDeleted x = isDeleted y"
  have fmt: "list_all2 ?P rows (formatBusinessInfoArrayDates (displayDate p) rows)" for rows
    unfolding formatBusinessInfoArrayDates_def list_all2_map2
    by (rule list_all2_refl) (simp add: formatted_fields)
  have "\<exists>q rows n. fst (search p store keyword pageArg limitArg) = [q] \<and>
         getManyAndCount p store q = Inr (rows, n) \<and> list_all2 ?P rows (data r)"
    if "snd (search p store keyword pageArg limitArg) = Inr r" for r
  proof -
    from search_returns[OF that] obtain q rows n where
      "search p store keyword pageArg limitArg = ([q], Inr r)"
      "getManyAndCount p store q = Inr (rows, n)"
      "r = \<lparr>data = formatBusinessInfoArrayDates (displayDate p) rows, total' = n,
             page = orDefault 1 pageArg, limit = orDefault 10 limitArg\<rparr>"
      by blast
    with fmt[of rows] show ?thesis by auto
  qed
  moreover have "\<exists>q rows n. fst (searchByDateRange p store startDate endDate pageArg limitArg) = [q] \<and>
         getManyAndCount p store q = Inr (rows, n) \<and> list_all2 ?P rows (data r)"
    if "snd (searchByDateRange p store startDate endDate pageArg limitArg) = Inr r" for r
  proof -
    from range_returns[OF that] obtain q rows n where
      "searchByDateRange p store startDate endDate pageArg limitArg = ([q], Inr r)"
      "getManyAndCount p store q = Inr (rows, n)"
      "r = \<lparr>data = formatBusinessInfoArrayDates (displayDate p) rows, total' = n,
             page = orDefault 1 pageArg, limit = orDefault 10 limitArg\<rparr>"
      by blast
    with fmt[of rows] show ?thesis by auto
  qed
  ultimately show ?thesis by blast
qed

theorem dates_formatted_uniformly_witness:
  "(\<exists>r q rows n. snd (search samplePlatform sampleStore [] None None) = Inr r \<and>
      fst (search samplePlatform sampleStore [] None None) = [q] \<and>
      getManyAndCount samplePlatform sampleStore q = Inr (rows, n) \<and>
      length (data r) = 3 \<and>
      list_all2 (\<lambda>y x. createdAt x = era (createdAt y) \<and> updatedAt x = era (updatedAt y) \<and>
                       businessName x = businessName y \<and> isDeleted x = isDeleted y) rows (data r)) \<and>
   (\<exists>r q rows n.
      snd (searchByDateRange samplePlatform sampleStore (js ''2024-01-01'') (js ''2024/01/31'') None None) = Inr r \<and>
      fst (searchByDateRange samplePlatform sampleStore (js ''2024-01-01'') (js ''2024/01/31'') None None) = [q] \<and>
      getManyAndCount samplePlatform sampleStore q = Inr (rows, n) \<and>
      length (data r) = 3 \<and>
      list_all2 (\<lambda>y x. createdAt x = era (createdAt y) \<and> updatedAt x = era (updatedAt y) \<and>
                       businessName x = businessName y \<and> isDeleted x = isDeleted y) rows (data r))"
proof -
  note inst = dates_formatted_uniformly[of samplePlatform sampleStore "[]" None None
      "js ''2024-01-01''" "js ''2024/01/31''"]
  let ?a = "\<lparr>data = map (formatRecordDates era) [sampleStore ! 1, sampleStore ! 0, sampleStore ! 3],
          total' = 3, page = 1, limit = 10\<rparr>"
  let ?b = "\<lparr>data = map (formatRecordDates era) [sampleStore ! 3, sampleStore ! 1, sampleStore ! 0],
          total' = 3, page = 1, limit = 10\<rparr>"
  let ?P = "\<lambda>y x. createdAt x = era (createdAt y) \<and> updatedAt x = era (updatedAt y) \<and>
                       businessName x = businessName y \<and> isDeleted x = isDeleted y"
  let ?F = "\<lambda>y x.
            createdAt x = displayDate samplePlatform (createdAt y) \<and>
            updatedAt x = displayDate samplePlatform (updatedAt y) \<and>
            businessName x = businessName y \<and>
            businessNumber x = businessNumber y \<and>
            businessType x = businessType y \<and>
            businessCeo x = businessCeo y \<and>
            businessItem x = businessItem y \<and>
            corporateRegistrationNumber x = corporateRegistrationNumber y \<and>
            businessTel x = businessTel y \<and>
            businessMobile x = businessMobile y \<and>
            businessCeoEmail x = businessCeoEmail y \<and>
            businessFax x = businessFax y \<and>
            businessZipcode x = businessZipcode y \<and>
            businessAddress x = businessAddress y \<and>
            businessAddressDetail x = businessAddressDetail y \<and>
            isDeleted x = isDeleted y"
  from inst[THEN conjunct1, rule_format, OF sample_search(1)] obtain q rows n where
    q: "fst (search samplePlatform sampleStore [] None None) = [q]"
    and got: "getManyAndCount samplePlatform sampleStore q = Inr (rows, n)"
    and full: "list_all2 ?F rows (data ?a)"
    by (elim exE conjE)
  from full have all: "list_all2 ?P rows (data ?a)"
    by (rule list_all2_mono) (simp add: sample_platform)
  from inst[THEN conjunct2, rule_format, OF sample_range(1)] obtain q' rows' n' where
    q': "fst (searchByDateRange samplePlatform sampleStore (js ''2024-01-01'') (js ''2024/01/31'') None None) = [q']"
    and got': "getManyAndCount samplePlatform sampleStore q' = Inr (rows', n')"
    and full': "list_all2 ?F rows' (data ?b)"
    by (elim exE conjE)
  from full' have all': "list_all2 ?P rows' (data ?b)"
    by (rule list_all2_mono) (simp add: sample_platform)
  show ?thesis
  proof (intro conjI exI)
    show "snd (search samplePlatform sampleStore [] None None) = Inr ?a" by (rule sample_search(1))
    show "fst (search samplePlatform sampleStore [] None None) = [q]" by (rule q)
    show "getManyAndCount samplePlatform sampleStore q = Inr (rows, n)" by (rule got)
    show "length (data ?a) = 3" by simp
    show "list_all2 ?P rows (data ?a)" by (rule all)
    show "snd (searchByDateRange samplePlatform sampleStore (js ''2024-01-01'') (js ''2024/01/31'') None None) = Inr ?b"
      by (rule sample_range(1))
    show "fst (searchByDateRange samplePlatform sampleStore (js ''2024-01-01'') (js ''2024/01/31'') None None) = [q']"
      by (rule q')
    show "getManyAndCount samplePlatform sampleStore q' = Inr (rows', n')" by (rule got')
    show "length (data ?b) = 3" by simp
    show "list_all2 ?P rows' (data ?b)" by (rule all')
  qed
qed

text \<open>
  C9. \<open>searchByDateRange\<close> does not compare its two dates. For strings that match
  \<open>datePattern\<close> and parse to instants \<open>a\<close> and \<open>b\<close>, in whichever order, the validation
  passes and one and the same query is issued: not deleted, \<open>createdAt\<close> at least \<open>a\<close> and at
  most \<open>b\<close>, newest first, with the skip and take of the page; the outcome is what the store
  answers to that query, and neither a validation error nor a RangeError is raised. On a
  reversed range (\<open>b < a\<close>) any result has an empty \<open>data\<close> and \<open>total\<close> 0, and for
  \<open>page \<ge> 1\<close>, \<open>limit \<ge> 1\<close> that result is returned.
\<close>

theorem reversed_range_is_empty:
  assumes "regex_test datePattern startDate" "regex_test datePattern endDate"
    and "new_Date (dateHeuristics p) startDate = Date (Some a)"
    and "new_Date (dateHeuristics p) endDate = Date (Some b)"
  shows "validateDateRange startDate endDate = Inr () \<and>
         (\<exists>q. fst (searchByDateRange p store startDate endDate pageArg limitArg) = [q]) \<and>
         (\<exists>q. searchByDateRange p store startDate endDate pageArg limitArg =
               ([q], case getManyAndCount p store q of
                       Inl e \<Rightarrow> Inl e
                     | Inr (rows, n) \<Rightarrow>
                         Inr \<lparr>data = formatBusinessInfoArrayDates (displayDate p) rows, total' = n,
                              page = orDefault 1 pageArg, limit = orDefault 10 limitArg\<rparr>) \<and>
              wheres q =
                [(SimpleWhere, IsDeletedFalse),
                 (AndWhere, GreaterEq ''createdAt'' (ISOString a)),
                 (AndWhere, LessEq ''createdAt'' (ISOString b))] \<and>
              orderBys q = [(''createdAt'', DESC)] \<and>
              skipped q = Some ((orDefault 1 pageArg - 1) * orDefault 10 limitArg) \<and>
              taken q = Some (orDefault 10 limitArg)) \<and>
         (\<forall>m. snd (searchByDateRange p store startDate endDate pageArg limitArg) \<noteq>
               Inl (BadRequestException m)) \<and>
         snd (searchByDateRange p store startDate endDate pageArg limitArg) \<noteq> Inl RangeError \<and>
         (b < a \<longrightarrow>
            (\<forall>r. snd (searchByDateRange p store startDate endDate pageArg limitArg) = Inr r \<longrightarrow>
                  data r = [] \<and> total' r = 0) \<and>
            (1 \<le> orDefault 1 pageArg \<and> 1 \<le> orDefault 10 limitArg \<longrightarrow>
               snd (searchByDateRange p store startDate endDate pageArg limitArg) =
                 Inr \<lparr>data = [], total' = 0, page = orDefault 1 pageArg, limit = orDefault 10 limitArg\<rparr>))"
proof -
  let ?run = "searchByDateRange p store startDate endDate pageArg limitArg"
  from range_run[OF assms(1-4), of store pageArg limitArg] obtain q where
    run: "?run =
         ([q], case getManyAndCount p store q of
                 Inl e \<Rightarrow> Inl e
               | Inr (rows, n) \<Rightarrow>
                   Inr \<lparr>data = formatBusinessInfoArrayDates (displayDate p) rows, total' = n,
                        page = orDefault 1 pageArg, limit = orDefault 10 limitArg\<rparr>)"
    and w: "wheres q =
         [(SimpleWhere, IsDeletedFalse),
          (AndWhere, GreaterEq ''createdAt'' (ISOString a)),
          (AndWhere, LessEq ''createdAt'' (ISOString b))]"
    and o: "orderBys q = [(''createdAt'', DESC)]"
    and s: "skipped q = Some ((orDefault 1 pageArg - 1) * orDefault 10 limitArg)"
    and t: "taken q = Some (orDefault 10 limitArg)"
    by blast
  have issued: "(\<exists>q. ?run =
               ([q], case getManyAndCount p store q of
                       Inl e \<Rightarrow> Inl e
                     | Inr (rows, n) \<Rightarrow>
                         Inr \<lparr>data = formatBusinessInfoArrayDates (displayDate p) rows, total' = n,
                              page = orDefault 1 pageArg, limit = orDefault 10 limitArg\<rparr>) \<and>
              wheres q =
                [(SimpleWhere, IsDeletedFalse),
                 (AndWhere, GreaterEq ''createdAt'' (ISOString a)),
                 (AndWhere, LessEq ''createdAt'' (ISOString b))] \<and>
              orderBys q = [(''createdAt'', DESC)] \<and>
              skipped q = Some ((orDefault 1 pageArg - 1) * orDefault 10 limitArg) \<and>
              taken q = Some (orDefault 10 limitArg))"
    using run w o s t by blast
  have none: "filter (selected p q) store = []" if "b < a"
    using that unfolding filter_empty_conv selected_range[OF w] by auto
  have v: "validateDateRange startDate endDate = Inr ()"
    using assms(1,2) by (simp add: validateDateRange_def)
  have q: "\<exists>q. fst ?run = [q]" using run by simp
  have err: "snd ?run \<noteq> Inl (BadRequestException m)" "snd ?run \<noteq> Inl RangeError" for m
    using run by (auto split: sum.splits dest: getManyAndCount_Inl)
  have empty: "data r = [] \<and> total' r = 0" if "b < a" "snd ?run = Inr r" for r
  proof -
    note none = none[OF that(1)]
    from that(2) run obtain rows n where got: "getManyAndCount p store q = Inr (rows, n)"
      and r: "r = \<lparr>data = formatBusinessInfoArrayDates (displayDate p) rows, total' = n,
                        page = orDefault 1 pageArg, limit = orDefault 10 limitArg\<rparr>"
      by (auto split: sum.splits)
    from none have "{r \<in> set store. selected p q r} = {}"
      by (simp add: filter_empty_conv)
    with getManyAndCount_Inr[OF got] none have "rows = []" "n = 0" by simp_all
    with r show ?thesis by (simp add: formatBusinessInfoArrayDates_def)
  qed
  have ret: "snd ?run = Inr \<lparr>data = [], total' = 0, page = orDefault 1 pageArg, limit = orDefault 10 limitArg\<rparr>"
    if "b < a" "1 \<le> orDefault 1 pageArg" "1 \<le> orDefault 10 limitArg"
  proof -
    note none = none[OF that(1)]
    have "getManyAndCount p store q =
           Inr (take (nat (orDefault 10 limitArg))
                  (drop (nat ((orDefault 1 pageArg - 1) * orDefault 10 limitArg))
                     (ordered p q (filter (selected p q) store))),
                int (length (filter (selected p q) store)))"
      using s t that(2,3) by (intro getManyAndCount_page) simp_all
    moreover have "ordered p q [] = []"
      by (simp add: ordered_def ascending_def split: list.splits direction.splits)
    ultimately show ?thesis using run none
      by (simp add: formatBusinessInfoArrayDates_def)
  qed
  from v q issued err empty ret show ?thesis by blast
qed

theorem reversed_range_is_empty_witness:
  "regex_test datePattern (js ''2024-01-31'') \<and> regex_test datePattern (js ''2024-01-01'') \<and>
   new_Date (dateHeuristics samplePlatform) (js ''2024-01-31'') = Date (Some 1706659200000) \<and>
   new_Date (dateHeuristics samplePlatform) (js ''2024-01-01'') = Date (Some 1704067200000) \<and>
   (1704067200000 :: int) < 1706659200000 \<and>
   validateDateRange (js ''2024-01-31'') (js ''2024-01-01'') = Inr () \<and>
   (\<exists>q. fst (searchByDateRange samplePlatform sampleStore (js ''2024-01-31'') (js ''2024-01-01'') None None) = [q] \<and>
        wheres q =
          [(SimpleWhere, IsDeletedFalse),
           (AndWhere, GreaterEq ''createdAt'' (ISOString 1706659200000)),
           (AndWhere, LessEq ''createdAt'' (ISOString 1704067200000))] \<and>
        orderBys q = [(''createdAt'', DESC)] \<and> skipped q = Some 0 \<and> taken q = Some 10) \<and>
   snd (searchByDateRange samplePlatform sampleStore (js ''2024-01-31'') (js ''2024-01-01'') None None) =
     Inr \<lparr>data = [], total' = 0, page = 1, limit = 10\<rparr> \<and>
   snd (searchByDateRange samplePlatform sampleStore (js ''2024-01-31'') (js ''2024-01-01'') (Some 0) (Some 5)) =
     Inl QueryFailedError"
proof -
  have lt: "(1704067200000 :: int) < 1706659200000" by simp
  note inst = reversed_range_is_empty[OF sample_dates(3,1,7,5), of sampleStore]
  from inst[of None None, THEN conjunct2, THEN conjunct2, THEN conjunct1] obtain q where
    run: "searchByDateRange samplePlatform sampleStore (js ''2024-01-31'') (js ''2024-01-01'') None None =
            ([q], case getManyAndCount samplePlatform sampleStore q of
                       Inl e \<Rightarrow> Inl e
                     | Inr (rows, n) \<Rightarrow>
                         Inr \<lparr>data = formatBusinessInfoArrayDates (displayDate samplePlatform) rows, total' = n,
                              page = orDefault 1 None, limit = orDefault 10 None\<rparr>)"
    and w: "wheres q =
          [(SimpleWhere, IsDeletedFalse),
           (AndWhere, GreaterEq ''createdAt'' (ISOString 1706659200000)),
           (AndWhere, LessEq ''createdAt'' (ISOString 1704067200000))]"
    and o: "orderBys q = [(''createdAt'', DESC)]"
    and s: "skipped q = Some ((orDefault 1 None - 1) * orDefault 10 None)"
    and t: "taken q = Some (orDefault 10 None)"
    by (elim exE conjE)
  have issued: "\<exists>q. fst (searchByDateRange samplePlatform sampleStore (js ''2024-01-31'') (js ''2024-01-01'') None None) = [q] \<and>
        wheres q =
          [(SimpleWhere, IsDeletedFalse),
           (AndWhere, GreaterEq ''createdAt'' (ISOString 1706659200000)),
           (AndWhere, LessEq ''createdAt'' (ISOString 1704067200000))] \<and>
        orderBys q = [(''createdAt'', DESC)] \<and> skipped q = Some 0 \<and> taken q = Some 10"
  proof (intro exI conjI)
    show "fst (searchByDateRange samplePlatform sampleStore (js ''2024-01-31'') (js ''2024-01-01'') None None) = [q]"
      by (simp add: run)
    show "wheres q =
          [(SimpleWhere, IsDeletedFalse),
           (AndWhere, GreaterEq ''createdAt'' (ISOString 1706659200000)),
           (AndWhere, LessEq ''createdAt'' (ISOString 1704067200000))]" by (rule w)
    show "orderBys q = [(''createdAt'', DESC)]" by (rule o)
    show "skipped q = Some 0" using s by (simp add: orDefault_def)
    show "taken q = Some 10" using t by (simp add: orDefault_def)
  qed
  from inst[of "Some 0" "Some 5", THEN conjunct2, THEN conjunct2, THEN conjunct1] obtain q' where
    run': "searchByDateRange samplePlatform sampleStore (js ''2024-01-31'') (js ''2024-01-01'') (Some 0) (Some 5) =
            ([q'], case getManyAndCount samplePlatform sampleStore q' of
                       Inl e \<Rightarrow> Inl e
                     | Inr (rows, n) \<Rightarrow>
                         Inr \<lparr>data = formatBusinessInfoArrayDates (displayDate samplePlatform) rows, total' = n,
                              page = orDefault 1 (Some 0), limit = orDefault 10 (Some 5)\<rparr>)"
    and s': "skipped q' = Some ((orDefault 1 (Some 0) - 1) * orDefault 10 (Some 5))"
    by (elim exE conjE)
  from s' have "skipped q' = Some (- 5)" by (simp add: orDefault_def)
  then have "getManyAndCount samplePlatform sampleStore q' = Inl QueryFailedError"
    by (rule getManyAndCount_negative) simp
  with run' have refused:
    "snd (searchByDateRange samplePlatform sampleStore (js ''2024-01-31'') (js ''2024-01-01'') (Some 0) (Some 5)) =
       Inl QueryFailedError"
    by simp
  have returned:
    "snd (searchByDateRange samplePlatform sampleStore (js ''2024-01-31'') (js ''2024-01-01'') None None) =
       Inr \<lparr>data = [], total' = 0, page = 1, limit = 10\<rparr>"
    using inst[of None None] lt by (simp add: orDefault_def)
  have "validateDateRange (js ''2024-01-31'') (js ''2024-01-01'') = Inr ()"
    using inst[of None None] by (rule conjunct1)
  with issued returned refused lt sample_dates(3,1,7,5) show ?thesis by (intro conjI)
qed

text \<open>
  C10. \<open>searchByDateRange\<close> tests its dates as given: a date string that begins or ends
  with white space fails the validation, in either position, and no query is issued,
  even when its trimmed form matches the pattern. \<open>search\<close>, in contrast, uses its keyword
  trimmed: a keyword and its trimmed form give the same run.
\<close>

theorem searchByDateRange_takes_dates_as_given:
  assumes "s \<noteq> []" "isWhiteSpace (hd s) \<or> isWhiteSpace (last s)"
  shows "searchByDateRange p store s other pageArg limitArg =
           ([], Inl (BadRequestException dateFormatMessage)) \<and>
         searchByDateRange p store other s pageArg limitArg =
           ([], Inl (BadRequestException dateFormatMessage)) \<and>
         search p store keyword pageArg limitArg = search p store (trim keyword) pageArg limitArg"
proof -
  have "\<not> regex_test datePattern s"
    using assms by (rule datePattern_rejects_padding)
  then have "searchByDateRange p store s other pageArg limitArg =
           ([], Inl (BadRequestException dateFormatMessage))"
    and "searchByDateRange p store other s pageArg limitArg =
           ([], Inl (BadRequestException dateFormatMessage))"
    by (simp_all add: range_invalid)
  moreover have "search p store keyword pageArg limitArg = search p store (trim keyword) pageArg limitArg"
    by (simp add: search_def trim_trim)
  ultimately show ?thesis by blast
qed

theorem searchByDateRange_takes_dates_as_given_witness:
  "regex_test datePattern (trim (js '' 2024-01-01'')) \<and>
   searchByDateRange samplePlatform sampleStore (js '' 2024-01-01'') (js ''2024-01-31'') None None =
     ([], Inl (BadRequestException dateFormatMessage)) \<and>
   searchByDateRange samplePlatform sampleStore (js ''2024-01-01'') (js '' 2024-01-01'') None None =
     ([], Inl (BadRequestException dateFormatMessage)) \<and>
   search samplePlatform sampleStore (js '' Acme '') None None =
     search samplePlatform sampleStore (trim (js '' Acme '')) None None"
proof -
  have "regex_test datePattern (trim (js '' 2024-01-01''))"
    by (simp add: trim_def isWhiteSpace_def regex_test_def datePattern_def js_def)
  moreover have "js '' 2024-01-01'' \<noteq> []" "isWhiteSpace (hd (js '' 2024-01-01'')) \<or> isWhiteSpace (last (js '' 2024-01-01''))"
    by (simp_all add: js_def isWhiteSpace_def)
  ultimately show ?thesis
    using searchByDateRange_takes_dates_as_given[of "js '' 2024-01-01''" samplePlatform sampleStore
        "js ''2024-01-31''" None None "js '' Acme ''"]
      searchByDateRange_takes_dates_as_given[of "js '' 2024-01-01''" samplePlatform sampleStore
        "js ''2024-01-01''" None None "js '' Acme ''"]
    by blast
qed

end
